theory Spec2Isabelle
  imports Complex_Main "HOL-Library.AList"
begin

section \<open>JavaScript values\<close>

text \<open>
  The mock API server handles JSON documents as plain JavaScript values: schemas read from
  files or request bodies, the body of the language model's HTTP answer, and the responses it
  sends. \<open>jsval\<close> is the type of such values. An object is the list of its own properties in
  enumeration order. \<open>JUndefined\<close> is the value of a missing property. Strings are lists of
  8-bit characters, one per code unit; numbers are kept as exact rationals (the rounding of a
  decimal literal to a double is not part of the model).
\<close>

datatype jsval =
    JUndefined
  | JNull
  | JBool bool
  | JNum rat
  | JStr string
  | JArr "jsval list"
  | JObj "(string \<times> jsval) list"

text \<open>What the code can throw, or what the HTTP client can reject with.\<close>

datatype js_error =
    RequestFailed   \<comment> \<open>axios rejects: network failure, time-out or a status outside 2xx\<close>
  | TypeError       \<comment> \<open>property read on null/undefined, call of a non-function\<close>
  | SyntaxError     \<comment> \<open>thrown by JSON.parse\<close>
  | NoJsonFound     \<comment> \<open>\<open>new Error("No valid JSON found in response")\<close>\<close>

definition and_then :: "js_error + 'a \<Rightarrow> ('a \<Rightarrow> js_error + 'b) \<Rightarrow> js_error + 'b" where
  "and_then m f = (case m of Inl e \<Rightarrow> Inl e | Inr v \<Rightarrow> f v)"

text \<open>Conversion of a value to a boolean, as in \<open>if (v)\<close>, \<open>!v\<close>, \<open>a || b\<close>, \<open>c ? x : y\<close>.\<close>

fun truthy :: "jsval \<Rightarrow> bool" where
  "truthy JUndefined = False"
| "truthy JNull = False"
| "truthy (JBool b) = b"
| "truthy (JNum n) = (n \<noteq> 0)"
| "truthy (JStr s) = (s \<noteq> [])"
| "truthy (JArr xs) = True"
| "truthy (JObj fs) = True"

fun typeof :: "jsval \<Rightarrow> string" where
  "typeof JUndefined = ''undefined''"
| "typeof JNull = ''object''"
| "typeof (JBool b) = ''boolean''"
| "typeof (JNum n) = ''number''"
| "typeof (JStr s) = ''string''"
| "typeof (JArr xs) = ''object''"
| "typeof (JObj fs) = ''object''"

subsection \<open>Property names that are array indices\<close>

definition is_digit :: "char \<Rightarrow> bool" where
  "is_digit c = (c \<in> set ''0123456789'')"

definition digit_val :: "char \<Rightarrow> nat" where
  "digit_val c = of_char c - 48"

definition decimal_val :: "string \<Rightarrow> nat" where
  "decimal_val s = foldl (\<lambda>n c. 10 * n + digit_val c) 0 s"

text \<open>
  A property name is an array index when it is the canonical decimal form of an integer
  below \<open>2^32 - 1\<close>: such names select the elements of arrays and the characters of strings,
  and come first, in ascending order, among the own properties of an object.
\<close>

definition array_index :: "string \<Rightarrow> nat option" where
  "array_index k =
     (if k \<noteq> [] \<and> list_all is_digit k \<and> (k = ''0'' \<or> hd k \<noteq> CHR ''0'')
         \<and> int (decimal_val k) < 4294967295
      then Some (decimal_val k) else None)"

fun show_nat :: "nat \<Rightarrow> string" where
  "show_nat n =
     (if n < 10 then [''0123456789'' ! n]
      else show_nat (n div 10) @ [''0123456789'' ! (n mod 10)])"

declare show_nat.simps [simp del]

subsection \<open>Reading and writing properties\<close>

text \<open>
  \<open>get_prop v k\<close> is the expression \<open>v.k\<close> (or \<open>v[k]\<close>) for the names this program reads
  (\<open>context\<close>, \<open>responseSchema\<close>, \<open>properties\<close>, \<open>type\<close>, \<open>enum\<close>, \<open>length\<close>, \<open>0\<close>,
  \<open>response\<close>, \<open>endpoint\<close>, \<open>method\<close>), none of which is defined on a built-in prototype:
  reading from \<open>null\<close> or \<open>undefined\<close> throws, an array or a string has \<open>length\<close> and its
  indices, and a missing property reads as \<open>undefined\<close>.
\<close>

fun get_prop :: "jsval \<Rightarrow> string \<Rightarrow> js_error + jsval" where
  "get_prop JUndefined k = Inl TypeError"
| "get_prop JNull k = Inl TypeError"
| "get_prop (JObj fs) k = Inr (case map_of fs k of None \<Rightarrow> JUndefined | Some v \<Rightarrow> v)"
| "get_prop (JArr xs) k =
     Inr (if k = ''length'' then JNum (of_nat (length xs))
          else case array_index k of
                 None \<Rightarrow> JUndefined
               | Some i \<Rightarrow> if i < length xs then xs ! i else JUndefined)"
| "get_prop (JStr s) k =
     Inr (if k = ''length'' then JNum (of_nat (length s))
          else case array_index k of
                 None \<Rightarrow> JUndefined
               | Some i \<Rightarrow> if i < length s then JStr [s ! i] else JUndefined)"
| "get_prop (JBool b) k = Inr JUndefined"
| "get_prop (JNum n) k = Inr JUndefined"

text \<open>
  A property read on a value known to be neither \<open>null\<close> nor \<open>undefined\<close>, where it
  cannot throw.
\<close>

definition field :: "jsval \<Rightarrow> string \<Rightarrow> jsval" where
  "field v k = (case get_prop v k of Inr x \<Rightarrow> x | Inl e \<Rightarrow> JUndefined)"

text \<open>
  Creating a new own property: an array index goes before every larger index and before
  all other names, any other name goes last.
\<close>

fun add_prop :: "string \<Rightarrow> jsval \<Rightarrow> (string \<times> jsval) list \<Rightarrow> (string \<times> jsval) list" where
  "add_prop k v [] = [(k, v)]"
| "add_prop k v ((k', v') # fs) =
     (case array_index k of
        None \<Rightarrow> (k', v') # add_prop k v fs
      | Some i \<Rightarrow>
          (case array_index k' of
             None \<Rightarrow> (k, v) # (k', v') # fs
           | Some j \<Rightarrow> if j < i then (k', v') # add_prop k v fs else (k, v) # (k', v') # fs))"

text \<open>
  Defining a data property, as JSON.parse does for each member of an object: an existing
  property keeps its place and takes the new value.
\<close>

definition define_prop :: "string \<Rightarrow> jsval \<Rightarrow> (string \<times> jsval) list \<Rightarrow> (string \<times> jsval) list" where
  "define_prop k v fs =
     (if k \<in> fst ` set fs then map (\<lambda>(k', v'). if k' = k then (k', v) else (k', v')) fs
      else add_prop k v fs)"

text \<open>
  The assignment \<open>obj[k] = v\<close> on an object created by \<open>{}\<close>. The name \<open>__proto__\<close> is an
  accessor inherited from \<open>Object.prototype\<close>: assigning to it creates no own property (it
  can only replace the prototype, which is not part of the JSON view of the object).
\<close>

definition set_prop :: "(string \<times> jsval) list \<Rightarrow> string \<Rightarrow> jsval \<Rightarrow> (string \<times> jsval) list" where
  "set_prop fs k v = (if k = ''__proto__'' then fs else define_prop k v fs)"

text \<open>\<open>Object.entries(v)\<close>: the own enumerable string-keyed properties, in order.\<close>

fun entries :: "jsval \<Rightarrow> js_error + (string \<times> jsval) list" where
  "entries JUndefined = Inl TypeError"
| "entries JNull = Inl TypeError"
| "entries (JObj fs) = Inr fs"
| "entries (JArr xs) = Inr (zip (map show_nat [0..<length xs]) xs)"
| "entries (JStr s) = Inr (zip (map show_nat [0..<length s]) (map (\<lambda>c. JStr [c]) s))"
| "entries (JBool b) = Inr []"
| "entries (JNum n) = Inr []"

section \<open>ollamaGenerator.js: the fallback response\<close>

text \<open>
  The body of the \<open>forEach\<close> callback: the value assigned to \<open>fallback[key]\<close>.
  \<open>prop.type\<close> is read first, so a \<open>null\<close> descriptor throws before anything else is looked at.
\<close>

definition fallback_value :: "string \<Rightarrow> jsval \<Rightarrow> js_error + jsval" where
  "fallback_value key prop =
     and_then (if typeof prop = ''string'' then Inr prop else get_prop prop ''type'') (\<lambda>type.
     and_then (if typeof prop = ''object''
               then and_then (get_prop prop ''enum'') (\<lambda>e. Inr (if truthy e then e else JNull))
               else Inr JNull) (\<lambda>enumVals.
     and_then (if truthy enumVals then get_prop enumVals ''length'' else Inr enumVals) (\<lambda>len.
       if truthy len then get_prop enumVals ''0''
       else if type = JStr ''string'' then Inr (JStr (''sample_'' @ key))
       else if type = JStr ''number'' then Inr (JNum 123)
       else if type = JStr ''boolean'' then Inr (JBool True)
       else Inr (JStr (''sample_'' @ key)))))"

text \<open>\<open>propEntries.forEach(...)\<close>, filling \<open>fallback\<close>; an exception ends the loop.\<close>

fun fill :: "(string \<times> jsval) list \<Rightarrow> (string \<times> jsval) list \<Rightarrow> js_error + (string \<times> jsval) list" where
  "fill [] fb = Inr fb"
| "fill ((key, prop) # es) fb =
     and_then (fallback_value key prop) (\<lambda>v. fill es (set_prop fb key v))"

text \<open>The \<open>catch\<close> block of \<open>generate\<close> (the logging apart).\<close>

definition fallback :: "jsval \<Rightarrow> js_error + jsval" where
  "fallback schema =
     and_then (get_prop schema ''responseSchema'') (\<lambda>rs.
       if truthy rs then
         and_then (get_prop rs ''properties'') (\<lambda>ps.
         and_then (entries (if truthy ps then ps else rs)) (\<lambda>propEntries.
         and_then (fill propEntries []) (\<lambda>fb. Inr (JObj fb))))
       else Inr (JObj [(''error'', JStr ''Failed to generate mock response from LLM.'')]))"

section \<open>Text operations\<close>

text \<open>
  The characters \<open>String.prototype.trim\<close> removes and the regular expression class
  \<open>\s\<close> matches, within the 8-bit range: tab, line feed, vertical tab, form feed, carriage
  return, space and the no-break space.
\<close>

definition js_space :: "char \<Rightarrow> bool" where
  "js_space c = (c \<in> {CHR 0x09, CHR 0x0A, CHR 0x0B, CHR 0x0C, CHR 0x0D, CHR 0x20, CHR 0xA0})"

definition trim :: "string \<Rightarrow> string" where
  "trim s = rev (dropWhile js_space (rev (dropWhile js_space s)))"

definition startsWith :: "string \<Rightarrow> char \<Rightarrow> bool" where
  "startsWith s c = (case s of [] \<Rightarrow> False | d # _ \<Rightarrow> d = c)"

text \<open>
  \<open>content.match(/\{[\s\S]*\}/)\<close> and \<open>content.match(/\[[\s\S]*\]/)\<close>: the match
  starts at the first opening character and, the star being greedy, ends at the last closing
  character after it; there is no match when no closing character follows the first
  opening one.
\<close>

definition greedy_match :: "char \<Rightarrow> char \<Rightarrow> string \<Rightarrow> string option" where
  "greedy_match l r s =
     (case dropWhile (\<lambda>c. c \<noteq> l) s of
        [] \<Rightarrow> None
      | _ # u \<Rightarrow>
          (let v = rev (dropWhile (\<lambda>c. c \<noteq> r) (rev u))
           in if v = [] then None else Some (l # v)))"

text \<open>\<open>content.split('\n')\<close> and \<open>lines.join('\n')\<close>.\<close>

fun split_lines :: "string \<Rightarrow> string list" where
  "split_lines [] = [[]]"
| "split_lines (c # cs) =
     (if c = CHR 0x0A then [] # split_lines cs
      else (case split_lines cs of l # ls \<Rightarrow> (c # l) # ls | [] \<Rightarrow> [[c]]))"

fun join_lines :: "string list \<Rightarrow> string" where
  "join_lines [] = []"
| "join_lines [l] = l"
| "join_lines (l # ls) = l @ CHR 0x0A # join_lines ls"

section \<open>JSON.parse\<close>

text \<open>
  \<open>JSON.parse\<close> is a built-in of the language. It is modelled in two stages: the text is cut
  into tokens (white space between tokens is dropped), and the tokens drive a pushdown
  automaton that builds the value. A failure of either stage is the \<open>SyntaxError\<close> of
  \<open>JSON.parse\<close>.
\<close>

datatype token =
    TLBrace | TRBrace | TLBracket | TRBracket | TColon | TComma
  | TString string | TNumber rat | TTrue | TFalse | TNull

definition json_ws :: "char \<Rightarrow> bool" where
  "json_ws c = (c \<in> {CHR 0x09, CHR 0x0A, CHR 0x0D, CHR 0x20})"

definition hex_val :: "char \<Rightarrow> nat option" where
  "hex_val c =
     (if is_digit c then Some (of_char c - 48)
      else if c \<in> set ''abcdef'' then Some (of_char c - 87)
      else if c \<in> set ''ABCDEF'' then Some (of_char c - 55)
      else None)"

definition unescape :: "char \<Rightarrow> char option" where
  "unescape e =
     (if e = CHR 0x22 then Some (CHR 0x22)
      else if e = CHR 0x5C then Some (CHR 0x5C)
      else if e = CHR ''/'' then Some (CHR ''/'')
      else if e = CHR ''b'' then Some (CHR 0x08)
      else if e = CHR ''f'' then Some (CHR 0x0C)
      else if e = CHR ''n'' then Some (CHR 0x0A)
      else if e = CHR ''r'' then Some (CHR 0x0D)
      else if e = CHR ''t'' then Some (CHR 0x09)
      else None)"

text \<open>
  The text after a backslash inside a string literal: the character the escape stands for
  and the text after the escape. A \<open>\uXXXX\<close> escape above \<open>00FF\<close> names a code unit
  outside the 8-bit alphabet of this model and is kept by its low byte.
\<close>

definition lex_escape :: "string \<Rightarrow> (char \<times> string) option" where
  "lex_escape cs =
     (case cs of
        [] \<Rightarrow> None
      | e # r \<Rightarrow>
          if e = CHR ''u'' then
            (case r of
               h1 # h2 # h3 # h4 # r' \<Rightarrow>
                 (case (hex_val h1, hex_val h2, hex_val h3, hex_val h4) of
                    (Some a, Some b, Some c, Some d) \<Rightarrow>
                      Some (char_of (((a * 16 + b) * 16 + c) * 16 + d), r')
                  | _ \<Rightarrow> None)
             | _ \<Rightarrow> None)
          else map_option (\<lambda>x. (x, r)) (unescape e))"

lemma lex_escape_shorter: "lex_escape cs = Some (x, r) \<Longrightarrow> length r < length cs"
  by (auto simp: lex_escape_def split: list.splits if_splits option.splits)

text \<open>
  The characters of a string literal after its opening quote: the decoded string and the
  text after the closing quote. Control characters must be escaped.
\<close>

function lex_string :: "string \<Rightarrow> (string \<times> string) option" where
  "lex_string [] = None"
| "lex_string (c # cs) =
     (if c = CHR 0x22 then Some ([], cs)
      else if c = CHR 0x5C then
        (case lex_escape cs of
           None \<Rightarrow> None
         | Some (x, r) \<Rightarrow> map_option (\<lambda>(s, rest). (x # s, rest)) (lex_string r))
      else if (of_char c :: nat) < 32 then None
      else map_option (\<lambda>(s, rest). (c # s, rest)) (lex_string cs))"
  by pat_completeness auto
termination
  by (relation "measure length") (auto dest: lex_escape_shorter)

text \<open>
  A number literal at the head of the text:
  \<open>-? (0 | [1-9][0-9]*) (. [0-9]+)? ([eE] [+-]? [0-9]+)?\<close>,
  read part by part; each part gives its value and the text after it.
  An integer part with a leading zero followed by further digits is rejected here; JSON.parse
  rejects it one token later, with the same result.
\<close>

definition lex_int :: "string \<Rightarrow> (nat \<times> string) option" where
  "lex_int s =
     (let ip = takeWhile is_digit s
      in if ip = [] \<or> (length ip > 1 \<and> hd ip = CHR ''0'') then None
         else Some (decimal_val ip, dropWhile is_digit s))"

definition lex_frac :: "string \<Rightarrow> (rat \<times> string) option" where
  "lex_frac s =
     (if startsWith s (CHR ''.'') then
        (let fp = takeWhile is_digit (tl s)
         in if fp = [] then None
            else Some (of_nat (decimal_val fp) / 10 ^ length fp, dropWhile is_digit (tl s)))
      else Some (0, s))"

definition lex_exp :: "string \<Rightarrow> (int \<times> string) option" where
  "lex_exp s =
     (if startsWith s (CHR ''e'') \<or> startsWith s (CHR ''E'') then
        (let s' = tl s;
             s'' = (if startsWith s' (CHR ''-'') \<or> startsWith s' (CHR ''+'') then tl s' else s');
             ep = takeWhile is_digit s''
         in if ep = [] then None
            else Some (if startsWith s' (CHR ''-'') then - int (decimal_val ep)
                       else int (decimal_val ep),
                       dropWhile is_digit s''))
      else Some (0, s))"

definition scale10 :: "rat \<Rightarrow> int \<Rightarrow> rat" where
  "scale10 x e = (if e < 0 then x / 10 ^ nat (- e) else x * 10 ^ nat e)"

definition lex_number :: "string \<Rightarrow> (rat \<times> string) option" where
  "lex_number s =
     (let neg = startsWith s (CHR ''-'')
      in case lex_int (if neg then tl s else s) of
           None \<Rightarrow> None
         | Some (i, s2) \<Rightarrow>
             (case lex_frac s2 of
                None \<Rightarrow> None
              | Some (f, s3) \<Rightarrow>
                  (case lex_exp s3 of
                     None \<Rightarrow> None
                   | Some (e, s4) \<Rightarrow>
                       Some (if neg then - scale10 (of_nat i + f) e
                             else scale10 (of_nat i + f) e, s4))))"

lemma lex_string_shorter: "lex_string cs = Some (s, rest) \<Longrightarrow> length rest < length cs"
proof (induction cs arbitrary: s rest rule: lex_string.induct)
  case 1
  then show ?case by simp
next
  case (2 c cs)
  show ?case
  proof (cases "c = CHR 0x22")
    case True
    with "2.prems" show ?thesis by simp
  next
    case quote: False
    show ?thesis
    proof (cases "c = CHR 0x5C")
      case True
      with quote "2.prems" obtain x r s' where
        esc: "lex_escape cs = Some (x, r)" and rec: "lex_string r = Some (s', rest)"
        by (auto split: option.splits)
      from "2.IH"(1) [OF quote True esc refl rec] have "length rest < length r" .
      with lex_escape_shorter [OF esc] show ?thesis by simp
    next
      case False
      with quote "2.prems" obtain s' where
        ctl: "\<not> (of_char c :: nat) < 32" and rec: "lex_string cs = Some (s', rest)"
        by (auto split: if_splits)
      from "2.IH"(2) [OF quote False ctl rec] show ?thesis by simp
    qed
  qed
qed

lemma lex_int_shorter: "lex_int s = Some (i, rest) \<Longrightarrow> length rest < length s"
proof -
  assume a: "lex_int s = Some (i, rest)"
  then have ip: "takeWhile is_digit s \<noteq> []" and r: "rest = dropWhile is_digit s"
    by (auto simp: lex_int_def Let_def split: if_splits)
  have "length (takeWhile is_digit s) + length (dropWhile is_digit s) = length s"
    by (metis length_append takeWhile_dropWhile_id)
  with ip r show ?thesis by (cases "takeWhile is_digit s") simp_all
qed

lemma lex_frac_shorter: "lex_frac s = Some (f, rest) \<Longrightarrow> length rest \<le> length s"
  using length_dropWhile_le [of is_digit "tl s"]
  by (auto simp: lex_frac_def Let_def split: if_splits)

lemma lex_exp_shorter: "lex_exp s = Some (e, rest) \<Longrightarrow> length rest \<le> length s"
proof -
  assume a: "lex_exp s = Some (e, rest)"
  show ?thesis
  proof (cases "startsWith s (CHR ''e'') \<or> startsWith s (CHR ''E'')")
    case True
    define s' where "s' = tl s"
    define s'' where
      "s'' = (if startsWith s' (CHR ''-'') \<or> startsWith s' (CHR ''+'') then tl s' else s')"
    from a True have "rest = dropWhile is_digit s''"
      unfolding lex_exp_def Let_def s'_def s''_def by (simp split: if_splits)
    moreover have "length (dropWhile is_digit s'') \<le> length s''"
      by (rule length_dropWhile_le)
    moreover have "length s'' \<le> length s'" by (simp add: s''_def)
    moreover have "length s' \<le> length s" by (simp add: s'_def)
    ultimately show ?thesis by simp
  next
    case False
    with a show ?thesis by (simp add: lex_exp_def)
  qed
qed

lemma lex_number_shorter: "lex_number s = Some (x, rest) \<Longrightarrow> length rest < length s"
proof -
  assume a: "lex_number s = Some (x, rest)"
  define s1 where "s1 = (if startsWith s (CHR ''-'') then tl s else s)"
  from a obtain i s2 f s3 e where
    i: "lex_int s1 = Some (i, s2)" and f: "lex_frac s2 = Some (f, s3)"
    and e: "lex_exp s3 = Some (e, rest)"
    unfolding lex_number_def Let_def s1_def by (auto split: option.splits)
  have "length s1 \<le> length s" by (simp add: s1_def)
  with lex_int_shorter [OF i] lex_frac_shorter [OF f] lex_exp_shorter [OF e]
  show ?thesis by simp
qed

definition punct :: "char \<Rightarrow> token option" where
  "punct c =
     (if c = CHR ''{'' then Some TLBrace
      else if c = CHR ''}'' then Some TRBrace
      else if c = CHR ''['' then Some TLBracket
      else if c = CHR '']'' then Some TRBracket
      else if c = CHR '':'' then Some TColon
      else if c = CHR '','' then Some TComma
      else None)"

function tokens :: "string \<Rightarrow> token list option" where
  "tokens [] = Some []"
| "tokens (c # cs) =
     (if json_ws c then tokens cs
      else if c \<in> set ''{}[]:,'' then
        (case punct c of
           None \<Rightarrow> None
         | Some t \<Rightarrow> map_option ((#) t) (tokens cs))
      else if c = CHR 0x22 then
        (case lex_string cs of
           None \<Rightarrow> None
         | Some (s, rest) \<Rightarrow> map_option ((#) (TString s)) (tokens rest))
      else if c = CHR ''-'' \<or> is_digit c then
        (case lex_number (c # cs) of
           None \<Rightarrow> None
         | Some (x, rest) \<Rightarrow> map_option ((#) (TNumber x)) (tokens rest))
      else if take 4 (c # cs) = ''true'' then map_option ((#) TTrue) (tokens (drop 3 cs))
      else if take 5 (c # cs) = ''false'' then map_option ((#) TFalse) (tokens (drop 4 cs))
      else if take 4 (c # cs) = ''null'' then map_option ((#) TNull) (tokens (drop 3 cs))
      else None)"
  by pat_completeness auto
termination
proof (relation "measure length")
  fix c cs x s rest
  assume "lex_string cs = Some x" "(s, rest) = x"
  then show "(rest, c # cs) \<in> measure length"
    using lex_string_shorter [of cs s rest] by simp
next
  fix c cs x y rest
  assume "lex_number (c # cs) = Some x" "(y, rest) = x"
  then show "(rest, c # cs) \<in> measure length"
    using lex_number_shorter [of "c # cs" y rest] by simp
qed simp_all

text \<open>
  The automaton. Its stack holds the arrays and objects that are still open, innermost
  first: the elements read so far, the members defined so far, and for an object the name of
  the member whose value is being read.
\<close>

datatype frame =
    InArray "jsval list"
  | InObject "(string \<times> jsval) list"
  | InMember "(string \<times> jsval) list" string

datatype expect =
    Value          \<comment> \<open>a value must follow\<close>
  | ValueOrClose   \<comment> \<open>just after \<open>[\<close>\<close>
  | Name           \<comment> \<open>a member name must follow\<close>
  | NameOrClose    \<comment> \<open>just after \<open>{\<close>\<close>
  | Colon          \<comment> \<open>just after a member name\<close>
  | CommaOrClose   \<comment> \<open>just after an element or a member\<close>

datatype parser = Running expect "frame list" | Finished jsval | Failed

text \<open>A complete value goes to the innermost open array or member, or is the result.\<close>

fun deliver :: "jsval \<Rightarrow> frame list \<Rightarrow> parser" where
  "deliver v [] = Finished v"
| "deliver v (InArray xs # st) = Running CommaOrClose (InArray (xs @ [v]) # st)"
| "deliver v (InMember ms k # st) = Running CommaOrClose (InObject (define_prop k v ms) # st)"
| "deliver v (InObject ms # st) = Failed"

fun scalar :: "token \<Rightarrow> jsval option" where
  "scalar (TString s) = Some (JStr s)"
| "scalar (TNumber x) = Some (JNum x)"
| "scalar TTrue = Some (JBool True)"
| "scalar TFalse = Some (JBool False)"
| "scalar TNull = Some JNull"
| "scalar _ = None"

fun close_frame :: "token \<Rightarrow> frame list \<Rightarrow> parser" where
  "close_frame TRBracket (InArray xs # st) = deliver (JArr xs) st"
| "close_frame TRBrace (InObject ms # st) = deliver (JObj ms) st"
| "close_frame _ _ = Failed"

fun expect_value :: "token \<Rightarrow> frame list \<Rightarrow> parser" where
  "expect_value TLBracket st = Running ValueOrClose (InArray [] # st)"
| "expect_value TLBrace st = Running NameOrClose (InObject [] # st)"
| "expect_value t st = (case scalar t of Some v \<Rightarrow> deliver v st | None \<Rightarrow> Failed)"

fun expect_name :: "token \<Rightarrow> frame list \<Rightarrow> parser" where
  "expect_name (TString k) (InObject ms # st) = Running Colon (InMember ms k # st)"
| "expect_name _ _ = Failed"

fun step :: "parser \<Rightarrow> token \<Rightarrow> parser" where
  "step (Running Value st) t = expect_value t st"
| "step (Running ValueOrClose st) t =
     (if t = TRBracket then close_frame t st else expect_value t st)"
| "step (Running Name st) t = expect_name t st"
| "step (Running NameOrClose st) t =
     (if t = TRBrace then close_frame t st else expect_name t st)"
| "step (Running Colon st) t = (if t = TColon then Running Value st else Failed)"
| "step (Running CommaOrClose st) t =
     (if t = TComma then
        (case st of
           InArray xs # _ \<Rightarrow> Running Value st
         | InObject ms # _ \<Rightarrow> Running Name st
         | _ \<Rightarrow> Failed)
      else close_frame t st)"
| "step (Finished v) t = Failed"
| "step Failed t = Failed"

definition JSON_parse :: "string \<Rightarrow> jsval option" where
  "JSON_parse s =
     (case tokens s of
        None \<Rightarrow> None
      | Some ts \<Rightarrow>
          (case foldl step (Running Value []) ts of
             Finished v \<Rightarrow> Some v
           | _ \<Rightarrow> None))"

text \<open>The token that closes an open array or object.\<close>

fun closer :: "frame \<Rightarrow> token" where
  "closer (InArray xs) = TRBracket"
| "closer (InObject ms) = TRBrace"
| "closer (InMember ms k) = TRBrace"

section \<open>ollamaGenerator.js: generate\<close>

subsection \<open>The prompt\<close>

text \<open>
  The prompt is a template literal with three substitutions: \<open>schema.context || "N/A"\<close>,
  \<open>JSON.stringify(schema.responseSchema)\<close> and \<open>JSON.stringify(input)\<close>. Its text only
  travels to the language model, so it is kept as the three values it is made of (a missing
  \<open>input\<close> defaults to \<open>{}\<close>). Building
  it can throw, before the \<open>try\<close> block is entered: \<open>schema.context\<close> is a property read,
  and the template converts the context to a string. For a value that came from JSON the
  conversion fails exactly when it meets an object with an own property \<open>toString\<close> (which
  hides the inherited method and is not callable); an array converts its elements, except
  \<open>null\<close>, one by one.
\<close>

fun to_string_throws :: "jsval \<Rightarrow> bool" where
  "to_string_throws (JObj fs) = (''toString'' \<in> fst ` set fs)"
| "to_string_throws (JArr xs) = (\<exists>x\<in>set xs. to_string_throws x)"
| "to_string_throws _ = False"

datatype prompt = Prompt jsval jsval jsval

definition build_prompt :: "jsval \<Rightarrow> jsval \<Rightarrow> js_error + prompt" where
  "build_prompt schema input =
     and_then (get_prop schema ''context'') (\<lambda>c.
       let context = (if truthy c then c else JStr ''N/A'')
       in if to_string_throws context then Inl TypeError
          else and_then (get_prop schema ''responseSchema'') (\<lambda>rs.
                 Inr (Prompt context rs (if input = JUndefined then JObj [] else input))))"

subsection \<open>The answer of the language model\<close>

text \<open>
  What the awaited \<open>axios.post\<close> settles with: the promise is rejected (no connection, a
  time-out, a status outside 2xx), or it resolves with a response whose \<open>data\<close> is the body
  of the answer as the client decoded it, whatever the service chose to send.
\<close>

datatype llm_outcome = Rejected | Resolved jsval

subsection \<open>Extraction strategies\<close>

text \<open>\<open>!jsonContent\<close> for a variable that holds \<open>null\<close> or a string.\<close>

definition no_content :: "string option \<Rightarrow> bool" where
  "no_content jsonContent = (case jsonContent of None \<Rightarrow> True | Some s \<Rightarrow> s = [])"

definition strategy1 :: "string \<Rightarrow> string option" where
  "strategy1 content = greedy_match (CHR ''{'') (CHR ''}'') content"

definition strategy2 :: "string \<Rightarrow> string option" where
  "strategy2 content = greedy_match (CHR ''['') (CHR '']'') content"

definition strategy3 :: "string \<Rightarrow> string option" where
  "strategy3 content =
     (if startsWith content (CHR ''{'') \<or> startsWith content (CHR ''['') then Some content
      else None)"

text \<open>The loop of strategy 4 over the lines that are left, \<open>lines.slice(i)\<close>.\<close>

fun scan_lines :: "string list \<Rightarrow> string option" where
  "scan_lines [] = None"
| "scan_lines (l # ls) =
     (if startsWith (trim l) (CHR ''{'') \<or> startsWith (trim l) (CHR ''['')
      then Some (join_lines (l # ls))
      else scan_lines ls)"

definition strategy4 :: "string \<Rightarrow> string option" where
  "strategy4 content = scan_lines (split_lines content)"

text \<open>The value of \<open>jsonContent\<close> after the four strategies, each guarded as in the source.\<close>

definition extract_json :: "string \<Rightarrow> string option" where
  "extract_json content =
     (let j1 = strategy1 content;
          j2 = (if no_content j1 then (case strategy2 content of Some m \<Rightarrow> Some m | None \<Rightarrow> j1)
                else j1);
          j3 = (if no_content j2 then (case strategy3 content of Some m \<Rightarrow> Some m | None \<Rightarrow> j2)
                else j2);
          j4 = (if no_content j3 then (case strategy4 content of Some m \<Rightarrow> Some m | None \<Rightarrow> j3)
                else j3)
      in j4)"

subsection \<open>The try block\<close>

text \<open>
  \<open>response.data.response.trim()\<close>: only a string has a \<open>trim\<close> method, so any other
  \<open>response\<close> field, or none, is a TypeError.
\<close>

definition response_text :: "jsval \<Rightarrow> js_error + string" where
  "response_text data =
     and_then (get_prop data ''response'') (\<lambda>r.
       case r of JStr s \<Rightarrow> Inr (trim s) | _ \<Rightarrow> Inl TypeError)"

definition try_block :: "llm_outcome \<Rightarrow> js_error + jsval" where
  "try_block llm =
     (case llm of
        Rejected \<Rightarrow> Inl RequestFailed
      | Resolved data \<Rightarrow>
          and_then (response_text data) (\<lambda>content.
            case extract_json content of
              None \<Rightarrow> Inl NoJsonFound
            | Some jsonContent \<Rightarrow>
                if jsonContent \<noteq> [] then
                  (case JSON_parse jsonContent of
                     Some v \<Rightarrow> Inr v
                   | None \<Rightarrow> Inl SyntaxError)
                else Inl NoJsonFound))"

subsection \<open>generate\<close>

text \<open>
  \<open>generate(schema, input)\<close>, given what the request to the language model settles with.
  The service is a black box: its answer is a parameter, and a statement about every
  behaviour of the service is a statement about every \<open>llm\<close>.
  \<open>Inl\<close> is an exception that leaves the function (a rejected promise for its caller),
  \<open>Inr\<close> the value it returns.
\<close>

definition generate :: "jsval \<Rightarrow> jsval \<Rightarrow> llm_outcome \<Rightarrow> js_error + jsval" where
  "generate schema input llm =
     and_then (build_prompt schema input) (\<lambda>prompt.
       case try_block llm of
         Inr v \<Rightarrow> Inr v
       | Inl err \<Rightarrow> fallback schema)"

section \<open>server.js: adding a schema at run time\<close>

text \<open>
  The state the handlers of \<open>server.js\<close> work on: the JSON documents in the schemas
  directory, by file name (the text of a file is the serialisation of the value); the
  \<open>schemas\<close> object, keyed by \<open>method route\<close>; and the handlers attached to the Express
  application, each with the schema it closes over.
\<close>

record server =
  files :: "(string \<times> jsval) list"
  schemas :: "(string \<times> jsval) list"
  routes :: "(string \<times> string \<times> jsval) list"

text \<open>\<open>res.status(n).json(body)\<close>; \<open>res.json(body)\<close> answers with status 200.\<close>

datatype response = Response nat jsval

text \<open>\<open>String.prototype.toLowerCase\<close> on 8-bit characters.\<close>

definition to_lower :: "char \<Rightarrow> char" where
  "to_lower c =
     (case map_of (zip ''ABCDEFGHIJKLMNOPQRSTUVWXYZ'' ''abcdefghijklmnopqrstuvwxyz'') c of
        Some d \<Rightarrow> d
      | None \<Rightarrow>
          if (192::nat) \<le> of_char c \<and> (of_char c :: nat) \<le> 222 \<and> (of_char c :: nat) \<noteq> 215
          then char_of (of_char c + (32::nat)) else c)"

definition toLowerCase :: "string \<Rightarrow> string" where
  "toLowerCase s = map to_lower s"

text \<open>The class \<open>\w\<close> of a regular expression: letters, digits and the underscore.\<close>

definition word_char :: "char \<Rightarrow> bool" where
  "word_char c =
     (c \<in> set ''abcdefghijklmnopqrstuvwxyzABCDEFGHIJKLMNOPQRSTUVWXYZ0123456789_'')"

text \<open>\<open>s.replace(/\W+/g, '_')\<close>: every maximal run of other characters becomes one underscore.\<close>

function replace_nonword :: "string \<Rightarrow> string" where
  "replace_nonword [] = []"
| "replace_nonword (c # cs) =
     (if word_char c then c # replace_nonword cs
      else CHR ''_'' # replace_nonword (dropWhile (\<lambda>d. \<not> word_char d) cs))"
  by pat_completeness auto
termination
  by (relation "measure length") (auto simp: less_Suc_eq_le length_dropWhile_le)

text \<open>\<open>s.replace(/^_+|_+$/g, '')\<close>: the underscores at both ends are removed.\<close>

definition strip_underscores :: "string \<Rightarrow> string" where
  "strip_underscores s =
     rev (dropWhile (\<lambda>c. c = CHR ''_'') (rev (dropWhile (\<lambda>c. c = CHR ''_'') s)))"

definition safeName :: "string \<Rightarrow> string" where
  "safeName endpoint =
     (let n = strip_underscores (replace_nonword endpoint) in if n = [] then ''schema'' else n)"

text \<open>
  \<open>registerEndpoint(schema)\<close>. \<open>verb m\<close> tells whether \<open>app[m]\<close> is a routing method of the
  Express application (the web framework is not part of this program); calling any other
  member is taken to fail as the call of a non-function does. The entry in \<open>schemas\<close> is
  stored before the handler is attached, and stays when attaching throws. The result is the
  exception thrown, if any, and the state left behind.
\<close>

definition registerEndpoint :: "(string \<Rightarrow> bool) \<Rightarrow> jsval \<Rightarrow> server \<Rightarrow> js_error option \<times> server" where
  "registerEndpoint verb schema st =
     (if \<not> truthy schema \<or> typeof (field schema ''endpoint'') \<noteq> ''string''
         \<or> typeof (field schema ''method'') \<noteq> ''string''
      then (None, st)
      else
        (case (field schema ''endpoint'', field schema ''method'') of
           (JStr route, JStr m) \<Rightarrow>
             (let method = toLowerCase m;
                  st' = st\<lparr>schemas := set_prop (schemas st) (method @ '' '' @ route) schema\<rparr>
              in if verb method
                 then (None, st'\<lparr>routes := routes st' @ [(method, route, schema)]\<rparr>)
                 else (Some TypeError, st'))
         | _ \<Rightarrow> (None, st)))"

text \<open>
  The handler of \<open>POST /schemas\<close>, for the request body \<open>body\<close> (\<open>JUndefined\<close> when the
  request has none). \<open>now\<close> is \<open>Date.now()\<close>, and \<open>writable f\<close> tells whether
  \<open>fs.writeFileSync\<close> succeeds on the file \<open>f\<close> of the schemas directory.
\<close>

definition invalid_schema :: "jsval \<Rightarrow> bool" where
  "invalid_schema schema =
     (\<not> truthy schema \<or> \<not> truthy (field schema ''endpoint'')
      \<or> \<not> truthy (field schema ''method'') \<or> \<not> truthy (field schema ''responseSchema''))"

definition post_schemas ::
  "nat \<Rightarrow> (string \<Rightarrow> bool) \<Rightarrow> (string \<Rightarrow> bool) \<Rightarrow> jsval \<Rightarrow> server \<Rightarrow> response \<times> server" where
  "post_schemas now writable verb body st =
     (if invalid_schema body
      then (Response 400 (JObj [(''error'', JStr ''Invalid schema format'')]), st)
      else
        (case field body ''endpoint'' of
           JStr endpoint \<Rightarrow>
             (let file = show_nat now @ ''_'' @ safeName endpoint @ ''.json''
              in if \<not> writable file
                 then (Response 500 (JObj [(''error'', JStr ''Failed to save/register schema'')]), st)
                 else
                   (case registerEndpoint verb body
                           (st\<lparr>files := AList.update file body (files st)\<rparr>) of
                      (None, st') \<Rightarrow>
                        (Response 200
                           (JObj [(''message'', JStr ''Schema added successfully''),
                                  (''endpoint'', JStr endpoint)]), st')
                    | (Some e, st') \<Rightarrow>
                        (Response 500 (JObj [(''error'', JStr ''Failed to save/register schema'')]),
                         st')))
         | _ \<Rightarrow> (Response 500 (JObj [(''error'', JStr ''Failed to save/register schema'')]), st)))"

section \<open>Properties of the fallback response\<close>

lemma fallback_value_string:
  "fallback_value key (JStr ''string'') = Inr (JStr (''sample_'' @ key))"
  by (simp add: fallback_value_def and_then_def)

lemma fallback_value_number: "fallback_value key (JStr ''number'') = Inr (JNum 123)"
  by (simp add: fallback_value_def and_then_def)

lemma fallback_value_boolean: "fallback_value key (JStr ''boolean'') = Inr (JBool True)"
  by (simp add: fallback_value_def and_then_def)

lemma fallback_value_other_name:
  "t \<notin> {''string'', ''number'', ''boolean''} \<Longrightarrow>
   fallback_value key (JStr t) = Inr (JStr (''sample_'' @ key))"
  by (simp add: fallback_value_def and_then_def)

lemma array_index_0: "array_index ''0'' = Some 0"
  by (simp add: array_index_def is_digit_def decimal_val_def digit_val_def)

lemma fallback_value_enum:
  "map_of fs ''enum'' = Some (JArr (x # xs)) \<Longrightarrow> fallback_value key (JObj fs) = Inr x"
  by (simp add: fallback_value_def and_then_def array_index_0)

lemma fallback_value_typed_object:
  "map_of fs ''enum'' = None \<Longrightarrow>
   fallback_value key (JObj fs) =
     Inr (if map_of fs ''type'' = Some (JStr ''number'') then JNum 123
          else if map_of fs ''type'' = Some (JStr ''boolean'') then JBool True
          else JStr (''sample_'' @ key))"
  by (auto simp: fallback_value_def and_then_def split: option.splits)

lemma fallback_value_null: "fallback_value key JNull = Inl TypeError"
  by (simp add: fallback_value_def and_then_def)

lemma get_prop_defined: "v \<noteq> JNull \<Longrightarrow> v \<noteq> JUndefined \<Longrightarrow> get_prop v k = Inr (field v k)"
  by (cases v) (simp_all add: field_def)

lemma get_prop_truthy: "truthy v \<Longrightarrow> get_prop v k = Inr (field v k)"
  by (cases v) (simp_all add: field_def)

text \<open>A descriptor other than \<open>null\<close> always gets a value: the loop body throws for \<open>null\<close> only.\<close>

lemma fallback_value_no_exception:
  assumes "prop \<noteq> JNull" "prop \<noteq> JUndefined"
  shows "\<exists>v. fallback_value key prop = Inr v"
  using assms
  by (cases "prop") (auto simp: fallback_value_def and_then_def get_prop_truthy)

lemma fill_no_exception:
  "\<forall>(k, d)\<in>set es. d \<noteq> JNull \<and> d \<noteq> JUndefined \<Longrightarrow> \<exists>fb'. fill es fb = Inr fb'"
proof (induction es arbitrary: fb)
  case Nil
  then show ?case by simp
next
  case (Cons a es)
  obtain k d where a: "a = (k, d)" by (cases a)
  with Cons.prems obtain v where "fallback_value k d = Inr v"
    using fallback_value_no_exception [of d k] by auto
  with a Cons.IH [of "set_prop fb k v"] Cons.prems show ?case
    by (auto simp: and_then_def)
qed

subsection \<open>The names of the fields\<close>

lemma keys_add_prop: "fst ` set (add_prop k v fs) = insert k (fst ` set fs)"
proof (induction fs)
  case Nil
  then show ?case by simp
next
  case (Cons a fs)
  obtain k' v' where a: "a = (k', v')" by (cases a)
  show ?case
  proof (cases "array_index k")
    case None
    with Cons.IH a show ?thesis by (simp add: insert_commute)
  next
    case (Some i)
    show ?thesis
    proof (cases "array_index k'")
      case None
      with Some a show ?thesis by simp
    next
      case (Some j)
      with \<open>array_index k = Some i\<close> Cons.IH a show ?thesis
        by (simp add: insert_commute)
    qed
  qed
qed

lemma keys_define_prop: "fst ` set (define_prop k v fs) = insert k (fst ` set fs)"
proof (cases "k \<in> fst ` set fs")
  case True
  have "fst ` set (map (\<lambda>(k', v'). if k' = k then (k', v) else (k', v')) fs) = fst ` set fs"
    by (induction fs) auto
  with True show ?thesis by (auto simp: define_prop_def)
next
  case False
  then show ?thesis by (simp add: define_prop_def keys_add_prop)
qed

lemma keys_set_prop:
  "fst ` set (set_prop fs k v) = (if k = ''__proto__'' then fst ` set fs else insert k (fst ` set fs))"
  by (simp add: set_prop_def keys_define_prop)

lemma keys_fill:
  "fill es fb = Inr fb' \<Longrightarrow> fst ` set fb' = fst ` set fb \<union> (fst ` set es - {''__proto__''})"
proof (induction es arbitrary: fb)
  case Nil
  then show ?case by simp
next
  case (Cons a es)
  obtain k d where a: "a = (k, d)" by (cases a)
  with Cons.prems obtain v where v: "fallback_value k d = Inr v"
    and rest: "fill es (set_prop fb k v) = Inr fb'"
    by (auto simp: and_then_def split: sum.splits)
  from Cons.IH [OF rest] a show ?case
    by (auto simp: keys_set_prop split: if_splits)
qed

section \<open>Properties of generate\<close>

lemma generate_failure:
  "build_prompt schema input = Inr p \<Longrightarrow> try_block llm = Inl err \<Longrightarrow>
   generate schema input llm = fallback schema"
  by (simp add: generate_def and_then_def)

lemma generate_success:
  "build_prompt schema input = Inr p \<Longrightarrow> try_block llm = Inr v \<Longrightarrow>
   generate schema input llm = Inr v"
  by (simp add: generate_def and_then_def)

text \<open>
  The prompt is built for every schema object whose \<open>context\<close> is missing or a string;
  whether it is built does not depend on the input.
\<close>

lemma build_prompt_object:
  "map_of fs ''context'' = None \<or> (\<exists>s. map_of fs ''context'' = Some (JStr s)) \<Longrightarrow>
   \<exists>p. build_prompt (JObj fs) input = Inr p"
  by (auto simp: build_prompt_def and_then_def Let_def)

lemma try_block_rejected: "try_block Rejected = Inl RequestFailed"
  by (simp add: try_block_def)

lemma try_block_text:
  "get_prop data ''response'' = Inr (JStr t) \<Longrightarrow> extract_json (trim t) = Some c \<Longrightarrow> c \<noteq> [] \<Longrightarrow>
   try_block (Resolved data) =
     (case JSON_parse c of Some v \<Rightarrow> Inr v | None \<Rightarrow> Inl SyntaxError)"
  by (simp add: try_block_def response_text_def and_then_def no_content_def)

lemma try_block_no_json:
  "get_prop data ''response'' = Inr (JStr t) \<Longrightarrow> extract_json (trim t) = None \<Longrightarrow>
   try_block (Resolved data) = Inl NoJsonFound"
  by (simp add: try_block_def response_text_def and_then_def no_content_def)

lemma greedy_match_nonempty: "greedy_match l r s = Some c \<Longrightarrow> c \<noteq> []"
  by (auto simp: greedy_match_def Let_def split: list.splits if_splits)

lemma extract_json_strategy1: "strategy1 content = Some c \<Longrightarrow> extract_json content = Some c"
  using greedy_match_nonempty [of "CHR ''{''" "CHR ''}''" content c]
  by (simp add: extract_json_def no_content_def strategy1_def)

lemma extract_json_strategy2:
  "strategy1 content = None \<Longrightarrow> strategy2 content = Some c \<Longrightarrow> extract_json content = Some c"
  using greedy_match_nonempty [of "CHR ''[''" "CHR '']''" content c]
  by (simp add: extract_json_def no_content_def strategy2_def)

text \<open>
  Apart from the construction of the prompt, \<open>generate\<close> can only throw out of its
  \<open>catch\<close> block, and only for a \<open>null\<close> field descriptor.
\<close>

lemma generate_no_exception:
  assumes "build_prompt schema input = Inr p"
    and "get_prop schema ''responseSchema'' = Inr rs"
    and "truthy rs \<Longrightarrow>
           \<exists>es. entries (if truthy (field rs ''properties'') then field rs ''properties'' else rs) = Inr es
              \<and> (\<forall>(k, d)\<in>set es. d \<noteq> JNull \<and> d \<noteq> JUndefined)"
  shows "\<exists>v. generate schema input llm = Inr v"
proof (cases "try_block llm")
  case (Inr v)
  with assms(1) show ?thesis by (simp add: generate_success)
next
  case (Inl err)
  show ?thesis
  proof (cases "truthy rs")
    case False
    with assms(1,2) Inl show ?thesis
      by (simp add: generate_failure fallback_def and_then_def)
  next
    case True
    define ps where "ps = field rs ''properties''"
    from True have ps: "get_prop rs ''properties'' = Inr ps"
      by (simp add: ps_def get_prop_truthy)
    from assms(3) [OF True] obtain es where
      es: "entries (if truthy ps then ps else rs) = Inr es"
      and ok: "\<forall>(k, d)\<in>set es. d \<noteq> JNull \<and> d \<noteq> JUndefined"
      unfolding ps_def by auto
    from fill_no_exception [OF ok] obtain fb where "fill es [] = Inr fb" by blast
    with assms(1,2) Inl True ps es show ?thesis
      by (simp add: generate_failure fallback_def and_then_def)
  qed
qed

section \<open>Well-formed answers\<close>

subsection \<open>The last token of a text that parses\<close>

text \<open>
  While the automaton runs on a non-empty stack, the bottom frame keeps its kind, and the
  run can only finish on the token that closes it.
\<close>

lemma run_Failed: "foldl step Failed ts = Failed"
  by (induction ts) simp_all

lemma run_Finished: "foldl step (Finished v) ts = Finished w \<Longrightarrow> ts = []"
  by (cases ts) (simp_all add: run_Failed)

lemma deliver_Running:
  "deliver v st = Running e' st' \<Longrightarrow> st \<noteq> [] \<and> st' \<noteq> [] \<and> closer (last st') = closer (last st)"
  by (cases "(v, st)" rule: deliver.cases) (auto split: if_splits)

lemma deliver_Finished: "deliver v st = Finished w \<Longrightarrow> st = []"
  by (cases "(v, st)" rule: deliver.cases) auto

lemma close_frame_Running:
  "close_frame t st = Running e' st' \<Longrightarrow> st' \<noteq> [] \<and> closer (last st') = closer (last st)"
  by (cases "(t, st)" rule: close_frame.cases) (auto dest!: deliver_Running split: if_splits)

lemma close_frame_Finished:
  "close_frame t st = Finished w \<Longrightarrow> st \<noteq> [] \<and> t = closer (last st)"
  by (cases "(t, st)" rule: close_frame.cases) (auto dest!: deliver_Finished)

lemma expect_value_Running:
  "expect_value t st = Running e' st' \<Longrightarrow> st \<noteq> [] \<Longrightarrow> st' \<noteq> [] \<and> closer (last st') = closer (last st)"
  by (cases "(t, st)" rule: expect_value.cases) (auto dest!: deliver_Running split: option.splits)

lemma expect_value_Finished: "expect_value t st = Finished w \<Longrightarrow> st = []"
  by (cases "(t, st)" rule: expect_value.cases) (auto dest!: deliver_Finished split: option.splits)

lemma expect_name_Running:
  "expect_name t st = Running e' st' \<Longrightarrow> st' \<noteq> [] \<and> closer (last st') = closer (last st)"
  by (cases "(t, st)" rule: expect_name.cases) auto

lemma expect_name_Finished: "expect_name t st \<noteq> Finished w"
  by (cases "(t, st)" rule: expect_name.cases) auto

lemma step_Running:
  "step (Running e st) t = Running e' st' \<Longrightarrow> st \<noteq> [] \<Longrightarrow>
   st' \<noteq> [] \<and> closer (last st') = closer (last st)"
  by (cases e)
     (auto dest: expect_value_Running expect_name_Running close_frame_Running
           split: if_splits list.splits frame.splits)

lemma step_Finished:
  "step (Running e st) t = Finished w \<Longrightarrow> st \<noteq> [] \<Longrightarrow> t = closer (last st)"
  by (cases e)
     (auto dest: expect_value_Finished close_frame_Finished simp: expect_name_Finished
           split: if_splits list.splits frame.splits)

lemma run_last_token:
  "foldl step (Running e st) ts = Finished v \<Longrightarrow> st \<noteq> [] \<Longrightarrow>
   ts \<noteq> [] \<and> last ts = closer (last st)"
proof (induction ts arbitrary: e st)
  case Nil
  then show ?case by simp
next
  case (Cons t ts)
  show ?case
  proof (cases "step (Running e st) t")
    case (Running e' st')
    from step_Running [OF Running Cons.prems(2)]
    have st': "st' \<noteq> []" and c: "closer (last st') = closer (last st)" by simp_all
    from Cons.prems(1) Running have "foldl step (Running e' st') ts = Finished v" by simp
    from Cons.IH [OF this st'] c show ?thesis by simp
  next
    case (Finished w)
    with Cons.prems(1) have "ts = []" by (simp add: run_Finished)
    with step_Finished [OF Finished Cons.prems(2)] show ?thesis by simp
  next
    case Failed
    with Cons.prems(1) show ?thesis by (simp add: run_Failed)
  qed
qed

subsection \<open>Where the last token sits in the text\<close>

lemma lex_escape_suffix: "lex_escape cs = Some (x, r) \<Longrightarrow> \<exists>pre. cs = pre @ r"
  by (auto simp: lex_escape_def split: list.splits if_splits option.splits)

lemma lex_string_suffix: "lex_string cs = Some (s, rest) \<Longrightarrow> \<exists>pre. cs = pre @ rest"
proof (induction cs arbitrary: s rest rule: lex_string.induct)
  case 1
  then show ?case by simp
next
  case (2 c cs)
  show ?case
  proof (cases "c = CHR 0x22")
    case True
    with "2.prems" have "c # cs = [c] @ rest" by simp
    then show ?thesis by blast
  next
    case quote: False
    show ?thesis
    proof (cases "c = CHR 0x5C")
      case True
      with quote "2.prems" obtain x r s' where
        esc: "lex_escape cs = Some (x, r)" and rec: "lex_string r = Some (s', rest)"
        by (auto split: option.splits)
      from "2.IH"(1) [OF quote True esc refl rec] obtain pre where "r = pre @ rest" ..
      moreover from lex_escape_suffix [OF esc] obtain pre' where "cs = pre' @ r" ..
      ultimately have "c # cs = (c # pre' @ pre) @ rest" by simp
      then show ?thesis by blast
    next
      case False
      with quote "2.prems" obtain s' where
        ctl: "\<not> (of_char c :: nat) < 32" and rec: "lex_string cs = Some (s', rest)"
        by (auto split: if_splits)
      from "2.IH"(2) [OF quote False ctl rec] obtain pre where "cs = pre @ rest" ..
      then have "c # cs = (c # pre) @ rest" by simp
      then show ?thesis by blast
    qed
  qed
qed

lemma tl_suffix: "s \<noteq> [] \<Longrightarrow> \<exists>pre. s = pre @ tl s"
  by (cases s) auto

lemma dropWhile_suffix: "\<exists>pre. s = pre @ dropWhile P s"
  by (metis takeWhile_dropWhile_id)

lemma startsWith_nonempty: "startsWith s c \<Longrightarrow> s \<noteq> []"
  by (auto simp: startsWith_def)

lemma lex_int_suffix: "lex_int s = Some (i, rest) \<Longrightarrow> \<exists>pre. s = pre @ rest"
  using dropWhile_suffix [of s is_digit]
  by (auto simp: lex_int_def Let_def split: if_splits)

lemma lex_frac_suffix: "lex_frac s = Some (f, rest) \<Longrightarrow> \<exists>pre. s = pre @ rest"
proof (cases "startsWith s (CHR ''.'')")
  case True
  assume "lex_frac s = Some (f, rest)"
  with True have r: "rest = dropWhile is_digit (tl s)"
    by (auto simp: lex_frac_def Let_def split: if_splits)
  from tl_suffix [OF startsWith_nonempty [OF True]] obtain p where p: "s = p @ tl s" ..
  from dropWhile_suffix [of "tl s" is_digit] obtain q where "tl s = q @ dropWhile is_digit (tl s)" ..
  with p r have "s = (p @ q) @ rest" by simp
  then show ?thesis by blast
next
  case False
  assume "lex_frac s = Some (f, rest)"
  with False have "s = [] @ rest" by (simp add: lex_frac_def)
  then show ?thesis by blast
qed

lemma lex_exp_suffix: "lex_exp s = Some (e, rest) \<Longrightarrow> \<exists>pre. s = pre @ rest"
proof (cases "startsWith s (CHR ''e'') \<or> startsWith s (CHR ''E'')")
  case True
  assume a: "lex_exp s = Some (e, rest)"
  define s' where "s' = tl s"
  define s'' where
    "s'' = (if startsWith s' (CHR ''-'') \<or> startsWith s' (CHR ''+'') then tl s' else s')"
  from a True have r: "rest = dropWhile is_digit s''"
    unfolding lex_exp_def Let_def s'_def s''_def by (simp split: if_splits)
  from True have "s \<noteq> []" by (auto dest: startsWith_nonempty)
  from tl_suffix [OF this] obtain p where p: "s = p @ s'" unfolding s'_def ..
  have "\<exists>q. s' = q @ s''"
  proof (cases "startsWith s' (CHR ''-'') \<or> startsWith s' (CHR ''+'')")
    case True
    then have "s' \<noteq> []" by (auto dest: startsWith_nonempty)
    from tl_suffix [OF this] True show ?thesis by (simp add: s''_def)
  next
    case False
    then have "s' = [] @ s''" by (simp add: s''_def)
    then show ?thesis by blast
  qed
  then obtain q where q: "s' = q @ s''" ..
  from dropWhile_suffix [of s'' is_digit] obtain u where "s'' = u @ dropWhile is_digit s''" ..
  with p q r have "s = (p @ q @ u) @ rest" by simp
  then show ?thesis by blast
next
  case False
  assume "lex_exp s = Some (e, rest)"
  with False have "s = [] @ rest" by (simp add: lex_exp_def)
  then show ?thesis by blast
qed

lemma lex_number_suffix: "lex_number s = Some (x, rest) \<Longrightarrow> \<exists>pre. s = pre @ rest"
proof -
  assume a: "lex_number s = Some (x, rest)"
  define s1 where "s1 = (if startsWith s (CHR ''-'') then tl s else s)"
  from a obtain i s2 f s3 e where
    i: "lex_int s1 = Some (i, s2)" and f: "lex_frac s2 = Some (f, s3)"
    and e: "lex_exp s3 = Some (e, rest)"
    unfolding lex_number_def Let_def s1_def by (auto split: option.splits)
  have "\<exists>p. s = p @ s1"
  proof (cases "startsWith s (CHR ''-'')")
    case True
    from tl_suffix [OF startsWith_nonempty [OF True]] True show ?thesis by (simp add: s1_def)
  next
    case False
    then have "s = [] @ s1" by (simp add: s1_def)
    then show ?thesis by blast
  qed
  then obtain p where "s = p @ s1" ..
  moreover from lex_int_suffix [OF i] obtain q where "s1 = q @ s2" ..
  moreover from lex_frac_suffix [OF f] obtain u where "s2 = u @ s3" ..
  moreover from lex_exp_suffix [OF e] obtain w where "s3 = w @ rest" ..
  ultimately have "s = (p @ q @ u @ w) @ rest" by simp
  then show ?thesis by blast
qed

lemma punct_inj: "punct c = Some t \<Longrightarrow> punct d = Some t \<Longrightarrow> c = d"
  by (auto simp: punct_def split: if_splits)

lemma punct_scalar: "punct c = Some t \<Longrightarrow> scalar t = None"
  by (auto simp: punct_def split: if_splits)

text \<open>How the first token is cut off the text.\<close>

lemma tokens_Cons_cases:
  assumes "tokens (c # cs) = Some ts"
  obtains (space) "json_ws c" "tokens cs = Some ts"
  | (punct) t ts' where "punct c = Some t" "tokens cs = Some ts'" "ts = t # ts'"
  | (scalar) t ts' pre rest where "tokens rest = Some ts'" "ts = t # ts'"
      "c # cs = pre @ rest" "length rest < length (c # cs)" "scalar t \<noteq> None"
proof (cases "json_ws c")
  case True
  with assms space show ?thesis by simp
next
  case ws: False
  show ?thesis
  proof (cases "c \<in> set ''{}[]:,''")
    case True
    with ws assms obtain t ts' where "punct c = Some t" "tokens cs = Some ts'" "ts = t # ts'"
      by (auto split: option.splits)
    with punct show ?thesis by blast
  next
    case pu: False
    show ?thesis
    proof (cases "c = CHR 0x22")
      case True
      with ws pu assms have
        "(case lex_string cs of
            None \<Rightarrow> None
          | Some (x, rest) \<Rightarrow> map_option ((#) (TString x)) (tokens rest)) = Some ts"
        by simp
      then obtain x rest ts' where
        l: "lex_string cs = Some (x, rest)" and t: "tokens rest = Some ts'" "ts = TString x # ts'"
        by (auto split: option.splits)
      from lex_string_suffix [OF l] obtain pre where "cs = pre @ rest" ..
      then have "c # cs = (c # pre) @ rest" by simp
      moreover from lex_string_shorter [OF l] have "length rest < length (c # cs)" by simp
      ultimately show ?thesis using scalar [OF t] by simp
    next
      case qu: False
      show ?thesis
      proof (cases "c = CHR ''-'' \<or> is_digit c")
        case True
        with ws pu qu assms have
          "(case lex_number (c # cs) of
              None \<Rightarrow> None
            | Some (x, rest) \<Rightarrow> map_option ((#) (TNumber x)) (tokens rest)) = Some ts"
          by simp
        then obtain x rest ts' where
          l: "lex_number (c # cs) = Some (x, rest)"
          and t: "tokens rest = Some ts'" "ts = TNumber x # ts'"
          by (auto split: option.splits)
        from lex_number_suffix [OF l] obtain pre where "c # cs = pre @ rest" ..
        with lex_number_shorter [OF l] show ?thesis using scalar [OF t] by simp
      next
        case nu: False
        from ws pu qu nu assms have
          "(if take 4 (c # cs) = ''true'' then map_option ((#) TTrue) (tokens (drop 3 cs))
            else if take 5 (c # cs) = ''false'' then map_option ((#) TFalse) (tokens (drop 4 cs))
            else if take 4 (c # cs) = ''null'' then map_option ((#) TNull) (tokens (drop 3 cs))
            else None) = Some ts"
          by simp
        then consider
          ts' where "tokens (drop 3 cs) = Some ts'" "ts = TTrue # ts'"
        | ts' where "tokens (drop 4 cs) = Some ts'" "ts = TFalse # ts'"
        | ts' where "tokens (drop 3 cs) = Some ts'" "ts = TNull # ts'"
          by (auto split: if_splits)
        then show ?thesis
        proof cases
          case 1
          have "c # cs = (c # take 3 cs) @ drop 3 cs" by simp
          with 1 show ?thesis using scalar [of "drop 3 cs" ts' TTrue "c # take 3 cs"] by simp
        next
          case 2
          have "c # cs = (c # take 4 cs) @ drop 4 cs" by simp
          with 2 show ?thesis using scalar [of "drop 4 cs" ts' TFalse "c # take 4 cs"] by simp
        next
          case 3
          have "c # cs = (c # take 3 cs) @ drop 3 cs" by simp
          with 3 show ?thesis using scalar [of "drop 3 cs" ts' TNull "c # take 3 cs"] by simp
        qed
      qed
    qed
  qed
qed

lemma tokens_Nil: "tokens s = Some [] \<Longrightarrow> list_all json_ws s"
proof (induction s)
  case Nil
  then show ?case by simp
next
  case (Cons c cs)
  from Cons.prems show ?case
  proof (cases rule: tokens_Cons_cases)
    case space
    with Cons.IH show ?thesis by simp
  qed simp_all
qed

text \<open>
  When the last token is a closing brace or bracket, the text ends with that character
  and white space.
\<close>

lemma tokens_last:
  "tokens s = Some ts \<Longrightarrow> ts \<noteq> [] \<Longrightarrow> punct d = Some (last ts) \<Longrightarrow>
   \<exists>pre ws. s = pre @ d # ws \<and> list_all json_ws ws"
proof (induction s arbitrary: ts rule: length_induct)
  case (1 s)
  show ?case
  proof (cases s)
    case Nil
    with "1.prems" show ?thesis by simp
  next
    case (Cons c cs)
    with "1.prems"(1) have "tokens (c # cs) = Some ts" by simp
    then show ?thesis
    proof (cases rule: tokens_Cons_cases)
      case space
      with "1.IH" Cons "1.prems"(2,3) obtain pre ws where
        "cs = pre @ d # ws" "list_all json_ws ws"
        by (metis length_Cons lessI)
      with Cons have "s = (c # pre) @ d # ws \<and> list_all json_ws ws" by simp
      then show ?thesis by blast
    next
      case (punct t ts')
      show ?thesis
      proof (cases "ts' = []")
        case True
        with punct "1.prems"(3) have "c = d" by (auto dest: punct_inj)
        moreover from True punct have "list_all json_ws cs" by (simp add: tokens_Nil)
        ultimately have "s = [] @ d # cs \<and> list_all json_ws cs" using Cons by simp
        then show ?thesis by blast
      next
        case False
        with punct "1.prems"(3) have "punct d = Some (last ts')" by simp
        with "1.IH" Cons punct(2) False obtain pre ws where
          "cs = pre @ d # ws" "list_all json_ws ws"
          by (metis length_Cons lessI)
        with Cons have "s = (c # pre) @ d # ws \<and> list_all json_ws ws" by simp
        then show ?thesis by blast
      qed
    next
      case (scalar t ts' pre0 rest)
      show ?thesis
      proof (cases "ts' = []")
        case True
        with scalar "1.prems"(3) show ?thesis by (auto dest: punct_scalar)
      next
        case False
        with scalar "1.prems"(3) have "punct d = Some (last ts')" by simp
        with "1.IH" Cons scalar(1,4) False obtain pre ws where
          "rest = pre @ d # ws" "list_all json_ws ws"
          by metis
        with Cons scalar(3) have "s = (pre0 @ pre) @ d # ws \<and> list_all json_ws ws" by simp
        then show ?thesis by blast
      qed
    qed
  qed
qed

subsection \<open>Objects and plain arrays are returned unchanged\<close>

lemma trim_last: "trim t \<noteq> [] \<Longrightarrow> \<not> js_space (last (trim t))"
proof -
  assume a: "trim t \<noteq> []"
  define xs where "xs = dropWhile js_space (rev (dropWhile js_space t))"
  from a have "xs \<noteq> []" by (simp add: trim_def xs_def)
  then have "\<not> js_space (hd xs)" unfolding xs_def by (rule hd_dropWhile)
  moreover from \<open>xs \<noteq> []\<close> have "last (trim t) = hd xs"
    by (simp add: trim_def xs_def last_rev)
  ultimately show ?thesis by simp
qed

lemma json_ws_js_space: "json_ws c \<Longrightarrow> js_space c"
  by (auto simp: json_ws_def js_space_def)

lemma greedy_match_whole: "greedy_match l r (l # u @ [r]) = Some (l # u @ [r])"
  by (simp add: greedy_match_def)

text \<open>
  A trimmed text that parses and opens with a brace or a bracket closes with the matching
  character, so the greedy match from the opening character takes all of it.
\<close>

lemma parse_enclosed:
  assumes p: "JSON_parse (trim t) = Some v"
    and s: "trim t = l # cs"
    and l: "(l, r, f) \<in> {(CHR ''{'', CHR ''}'', InObject []), (CHR ''['', CHR '']'', InArray [])}"
  shows "greedy_match l r (trim t) = Some (trim t)"
proof -
  from l have lr: "l \<noteq> r" "\<not> json_ws l" "l \<in> set ''{}[]:,''" "punct r = Some (closer f)"
    and first: "step (Running Value []) (the (punct l)) = Running (if l = CHR ''{'' then NameOrClose else ValueOrClose) [f]"
    and pl: "punct l \<noteq> None"
    by (auto simp: json_ws_def punct_def)
  from p obtain ts where ts: "tokens (trim t) = Some ts"
    and run: "foldl step (Running Value []) ts = Finished v"
    by (auto simp: JSON_parse_def split: option.splits parser.splits)
  from ts s lr pl obtain ts' where ts': "ts = the (punct l) # ts'"
    by (auto split: option.splits)
  with run first have "foldl step (Running (if l = CHR ''{'' then NameOrClose else ValueOrClose) [f]) ts' = Finished v"
    by simp
  from run_last_token [OF this] have "ts' \<noteq> []" "last ts' = closer f" by simp_all
  with ts' lr have "ts \<noteq> []" "punct r = Some (last ts)" by simp_all
  from tokens_last [OF ts this] obtain pre ws where
    pre: "trim t = pre @ r # ws" and ws: "list_all json_ws ws" by blast
  have "ws = []"
  proof (rule ccontr)
    assume "ws \<noteq> []"
    with pre have "last (trim t) = last ws" by simp
    moreover from \<open>ws \<noteq> []\<close> ws have "json_ws (last ws)"
      by (simp add: list_all_iff)
    moreover from pre have "trim t \<noteq> []" by simp
    ultimately show False using trim_last [of t] json_ws_js_space by auto
  qed
  with pre s lr(1) obtain u where "trim t = l # u @ [r]"
    by (cases pre) auto
  then show ?thesis by (simp add: greedy_match_whole)
qed

lemma strategy1_whole_object:
  assumes "JSON_parse (trim t) = Some v" and "startsWith (trim t) (CHR ''{'')"
  shows "strategy1 (trim t) = Some (trim t)"
proof -
  from assms(2) obtain cs where "trim t = CHR ''{'' # cs"
    by (cases "trim t") (auto simp: startsWith_def)
  from parse_enclosed [OF assms(1) this, of "CHR ''}''" "InObject []"] show ?thesis
    by (simp add: strategy1_def)
qed

lemma strategy2_whole_array:
  assumes "JSON_parse (trim t) = Some v" and "startsWith (trim t) (CHR ''['')"
  shows "strategy2 (trim t) = Some (trim t)"
proof -
  from assms(2) obtain cs where "trim t = CHR ''['' # cs"
    by (cases "trim t") (auto simp: startsWith_def)
  from parse_enclosed [OF assms(1) this, of "CHR '']''" "InArray []"] show ?thesis
    by (simp add: strategy2_def)
qed

text \<open>
  Where the claim of returning well-formed JSON unchanged does hold: for every text that,
  trimmed, is a well-formed JSON object, and for every well-formed JSON array on which
  strategy 1 finds nothing (no \<open>{\<close> with a \<open>}\<close> after it).
\<close>

lemma generate_returns_object:
  assumes "build_prompt schema input = Inr p"
    and "get_prop data ''response'' = Inr (JStr t)"
    and "startsWith (trim t) (CHR ''{'')"
    and "JSON_parse (trim t) = Some v"
  shows "generate schema input (Resolved data) = Inr v"
proof -
  from strategy1_whole_object [OF assms(4,3)]
  have e: "extract_json (trim t) = Some (trim t)" by (rule extract_json_strategy1)
  from assms(3) have "trim t \<noteq> []" by (rule startsWith_nonempty)
  from try_block_text [OF assms(2) e this] assms(4)
  have "try_block (Resolved data) = Inr v" by simp
  with assms(1) show ?thesis by (rule generate_success)
qed

lemma generate_returns_plain_array:
  assumes "build_prompt schema input = Inr p"
    and "get_prop data ''response'' = Inr (JStr t)"
    and "startsWith (trim t) (CHR ''['')"
    and "strategy1 (trim t) = None"
    and "JSON_parse (trim t) = Some v"
  shows "generate schema input (Resolved data) = Inr v"
proof -
  from strategy2_whole_array [OF assms(5,3)]
  have e: "extract_json (trim t) = Some (trim t)"
    using assms(4) by (simp add: extract_json_strategy2)
  from assms(3) have "trim t \<noteq> []" by (rule startsWith_nonempty)
  from try_block_text [OF assms(2) e this] assms(5)
  have "try_block (Resolved data) = Inr v" by simp
  with assms(1) show ?thesis by (rule generate_success)
qed

section \<open>The claims\<close>

subsection \<open>Evaluations used below\<close>

lemma trim_sure:
  \<open>trim ''Sure! Here is the JSON: {"x":1}'' = ''Sure! Here is the JSON: {"x":1}''\<close>
  by (simp add: trim_def js_space_def)

lemma strategy1_sure: \<open>strategy1 ''Sure! Here is the JSON: {"x":1}'' = Some ''{"x":1}''\<close>
  by (simp add: strategy1_def greedy_match_def)

lemma parse_x1: \<open>JSON_parse ''{"x":1}'' = Some (JObj [(''x'', JNum 1)])\<close>
  by code_simp

lemma trim_123: \<open>trim ''[1,2,3]'' = ''[1,2,3]''\<close>
  by (simp add: trim_def js_space_def)

lemma strategy1_123: \<open>strategy1 ''[1,2,3]'' = None\<close>
  by (simp add: strategy1_def greedy_match_def)

lemma strategy2_123: \<open>strategy2 ''[1,2,3]'' = Some ''[1,2,3]''\<close>
  by (simp add: strategy2_def greedy_match_def)

lemma parse_123: \<open>JSON_parse ''[1,2,3]'' = Some (JArr [JNum 1, JNum 2, JNum 3])\<close>
  by code_simp

lemma trim_note:
  \<open>trim ''{"x":1} Note: a closing } ends the object.'' = ''{"x":1} Note: a closing } ends the object.''\<close>
  by (simp add: trim_def js_space_def)

lemma strategy1_note:
  \<open>strategy1 ''{"x":1} Note: a closing } ends the object.'' = Some ''{"x":1} Note: a closing }''\<close>
  by (simp add: strategy1_def greedy_match_def)

lemma parse_note: \<open>JSON_parse ''{"x":1} Note: a closing }'' = None\<close>
  by code_simp

lemma trim_one_item: \<open>trim ''[{"a":1}]'' = ''[{"a":1}]''\<close>
  by (simp add: trim_def js_space_def)

lemma strategy1_one_item: \<open>strategy1 ''[{"a":1}]'' = Some ''{"a":1}''\<close>
  by (simp add: strategy1_def greedy_match_def)

lemma parse_one_item: \<open>JSON_parse ''[{"a":1}]'' = Some (JArr [JObj [(''a'', JNum 1)]])\<close>
  by code_simp

lemma parse_a1: \<open>JSON_parse ''{"a":1}'' = Some (JObj [(''a'', JNum 1)])\<close>
  by code_simp

lemma trim_two_items: \<open>trim ''[{"a":1},{"a":2}]'' = ''[{"a":1},{"a":2}]''\<close>
  by (simp add: trim_def js_space_def)

lemma strategy1_two_items: \<open>strategy1 ''[{"a":1},{"a":2}]'' = Some ''{"a":1},{"a":2}''\<close>
  by (simp add: strategy1_def greedy_match_def)

lemma parse_two_items:
  \<open>JSON_parse ''[{"a":1},{"a":2}]'' = Some (JArr [JObj [(''a'', JNum 1)], JObj [(''a'', JNum 2)]])\<close>
  by code_simp

lemma parse_two_objects: \<open>JSON_parse ''{"a":1},{"a":2}'' = None\<close>
  by code_simp

lemma fallback_abc:
  assumes "get_prop schema ''responseSchema'' =
             Inr (JObj [(''a'', JStr ''string''), (''b'', JStr ''number''),
                        (''c'', JObj [(''enum'', JArr [JStr ''X'', JStr ''Y''])])])"
  shows "fallback schema =
           Inr (JObj [(''a'', JStr ''sample_a''), (''b'', JNum 123), (''c'', JStr ''X'')])"
  using assms
  by (simp add: fallback_def and_then_def fallback_value_string fallback_value_number
      fallback_value_enum set_prop_def define_prop_def array_index_def is_digit_def)

subsection \<open>Claims about generate\<close>

text \<open>
  The statements about what \<open>generate\<close> does once the request is made assume that the
  prompt was built, \<open>build_prompt schema input = Inr p\<close>. This holds for every schema object
  whose \<open>context\<close> is missing or a string (\<open>build_prompt_object\<close>). A failure of the
  generation path is a failure of the \<open>try\<close> block, \<open>try_block llm = Inl err\<close>: the request
  is rejected, the body has no text in \<open>response\<close>, no candidate is found, or the candidate
  does not parse.
\<close>

text \<open>
  C1. The claim: for every schema and input, and whatever the language model service does,
  \<open>generate\<close> returns a JSON value and never lets an exception escape. The code does not
  keep this promise: the loop of the \<open>catch\<close> block reads \<open>prop.type\<close> of every field
  descriptor that is not a string, and for the descriptor \<open>null\<close> this read throws a
  TypeError inside the \<open>catch\<close> block, which nothing catches. With the schema
  \<open>{"endpoint": "/x", "method": "GET", "responseSchema": {"a": null}}\<close> and an unreachable
  service, \<open>generate\<close> throws.
\<close>

theorem generate_throws_on_null_descriptor:
  "generate (JObj [(''endpoint'', JStr ''/x''), (''method'', JStr ''GET''),
                   (''responseSchema'', JObj [(''a'', JNull)])])
            (JObj []) Rejected
   = Inl TypeError"
  by (simp add: generate_def build_prompt_def try_block_def fallback_def and_then_def
      fallback_value_null)

text \<open>
  C2. The claim: whenever the service answers with well-formed JSON, \<open>generate\<close> returns the
  value that JSON denotes, also when it is an array of objects. The code does not: strategy 1
  runs first and cuts the text from the first \<open>{\<close> to the last \<open>}\<close>. For the answer
  \<open>[{"a":1}]\<close> it returns the object \<open>{a: 1}\<close> instead of the array, and for
  \<open>[{"a":1},{"a":2}]\<close> the cut text \<open>{"a":1},{"a":2}\<close> does not parse, so the answer is
  dropped for the fallback value. (For a well-formed object, and for an array without braces,
  the claim holds: \<open>generate_returns_object\<close>, \<open>generate_returns_plain_array\<close>.)
\<close>

theorem generate_array_of_objects:
  \<open>JSON_parse ''[{"a":1}]'' = Some (JArr [JObj [(''a'', JNum 1)]])
   \<and> generate (JObj [(''endpoint'', JStr ''/items''), (''method'', JStr ''GET''),
                    (''responseSchema'', JArr [JObj [(''a'', JStr ''number'')]])])
        (JObj []) (Resolved (JObj [(''response'', JStr ''[{"a":1}]'')]))
     = Inr (JObj [(''a'', JNum 1)])
   \<and> JSON_parse ''[{"a":1},{"a":2}]'' = Some (JArr [JObj [(''a'', JNum 1)], JObj [(''a'', JNum 2)]])
   \<and> generate (JObj [(''endpoint'', JStr ''/items''), (''method'', JStr ''GET''),
                    (''responseSchema'', JArr [JObj [(''a'', JStr ''number'')]])])
        (JObj []) (Resolved (JObj [(''response'', JStr ''[{"a":1},{"a":2}]'')]))
     = Inr (JObj [(''0'', JStr ''sample_0'')])\<close>
proof -
  let ?schema = "JObj [(''endpoint'', JStr ''/items''), (''method'', JStr ''GET''),
                       (''responseSchema'', JArr [JObj [(''a'', JStr ''number'')]])]"
  have p: "build_prompt ?schema (JObj []) =
             Inr (Prompt (JStr ''N/A'') (JArr [JObj [(''a'', JStr ''number'')]]) (JObj []))"
    by (simp add: build_prompt_def and_then_def)
  have one: \<open>try_block (Resolved (JObj [(''response'', JStr ''[{"a":1}]'')])) = Inr (JObj [(''a'', JNum 1)])\<close>
    using try_block_text [of "JObj [(''response'', JStr ''[{\"a\":1}]'')]" "''[{\"a\":1}]''" "''{\"a\":1}''"]
    by (simp add: trim_one_item extract_json_strategy1 [OF strategy1_one_item] parse_a1)
  have two: \<open>try_block (Resolved (JObj [(''response'', JStr ''[{"a":1},{"a":2}]'')])) = Inl SyntaxError\<close>
    using try_block_text [of "JObj [(''response'', JStr ''[{\"a\":1},{\"a\":2}]'')]"
        "''[{\"a\":1},{\"a\":2}]''" "''{\"a\":1},{\"a\":2}''"]
    by (simp add: trim_two_items extract_json_strategy1 [OF strategy1_two_items] parse_two_objects)
  have fb: "fallback ?schema = Inr (JObj [(''0'', JStr ''sample_0'')])"
    by code_simp
  show ?thesis
    using generate_success [OF p one] generate_failure [OF p two]
    by (simp add: parse_one_item parse_two_items fb)
qed

text \<open>
  C3. There is a response text, one well-formed JSON object followed by an explanation that
  contains a later \<open>}\<close>, on which the greedy match of strategy 1 (first \<open>{\<close> to last
  \<open>}\<close>) yields a candidate that does not parse, so that \<open>generate\<close> returns the
  fallback value of the schema instead of the embedded object. The text is
  \<open>{"x":1} Note: a closing } ends the object.\<close>
\<close>

theorem greedy_match_overshoots:
  assumes \<open>build_prompt schema input = Inr p\<close>
    and \<open>get_prop data ''response'' = Inr (JStr ''{"x":1} Note: a closing } ends the object.'')\<close>
  shows \<open>JSON_parse ''{"x":1}'' = Some (JObj [(''x'', JNum 1)])
    \<and> strategy1 (trim ''{"x":1} Note: a closing } ends the object.'')
        = Some ''{"x":1} Note: a closing }''
    \<and> JSON_parse ''{"x":1} Note: a closing }'' = None
    \<and> generate schema input (Resolved data) = fallback schema\<close>
proof -
  have \<open>try_block (Resolved data) = Inl SyntaxError\<close>
    using try_block_text [OF assms(2), of \<open>''{"x":1} Note: a closing }''\<close>]
    by (simp add: trim_note extract_json_strategy1 [OF strategy1_note] parse_note)
  from generate_failure [OF assms(1) this] show ?thesis
    by (simp add: parse_x1 trim_note strategy1_note parse_note)
qed

theorem greedy_match_overshoots_witness:
  \<open>generate (JObj [(''endpoint'', JStr ''/x''), (''method'', JStr ''GET''),
                   (''responseSchema'', JObj [(''x'', JStr ''number'')])])
      (JObj [])
      (Resolved (JObj [(''response'', JStr ''{"x":1} Note: a closing } ends the object.'')]))
    = Inr (JObj [(''x'', JNum 123)])\<close>
proof -
  let ?schema = "JObj [(''endpoint'', JStr ''/x''), (''method'', JStr ''GET''),
                       (''responseSchema'', JObj [(''x'', JStr ''number'')])]"
  have p: "build_prompt ?schema (JObj []) =
             Inr (Prompt (JStr ''N/A'') (JObj [(''x'', JStr ''number'')]) (JObj []))"
    by (simp add: build_prompt_def and_then_def)
  have r: \<open>get_prop (JObj [(''response'', JStr ''{"x":1} Note: a closing } ends the object.'')])
             ''response'' = Inr (JStr ''{"x":1} Note: a closing } ends the object.'')\<close>
    by simp
  have fb: "fallback ?schema = Inr (JObj [(''x'', JNum 123)])"
    by (simp add: fallback_def and_then_def fallback_value_number set_prop_def define_prop_def)
  from greedy_match_overshoots [OF p r] show ?thesis
    by (simp add: fb)
qed

text \<open>
  C4. For a schema whose \<open>responseSchema\<close> is
  \<open>{"a": "string", "b": "number", "c": {"enum": ["X","Y"]}}\<close>, whenever the generation
  path fails, \<open>generate\<close> returns exactly \<open>{a: "sample_a", b: 123, c: "X"}\<close>. (The rules
  behind each field are \<open>fallback_value_enum\<close>, \<open>fallback_value_string\<close>,
  \<open>fallback_value_number\<close> and \<open>fallback_value_boolean\<close>, and
  \<open>fallback_value_typed_object\<close> for a descriptor \<open>{type: ...}\<close> without \<open>enum\<close>.)
\<close>

theorem fallback_example:
  assumes "build_prompt schema input = Inr p"
    and "try_block llm = Inl err"
    and "get_prop schema ''responseSchema'' =
           Inr (JObj [(''a'', JStr ''string''), (''b'', JStr ''number''),
                      (''c'', JObj [(''enum'', JArr [JStr ''X'', JStr ''Y''])])])"
  shows "generate schema input llm =
           Inr (JObj [(''a'', JStr ''sample_a''), (''b'', JNum 123), (''c'', JStr ''X'')])"
  using generate_failure [OF assms(1,2)] fallback_abc [OF assms(3)] by simp

theorem fallback_example_witness:
  "generate (JObj [(''endpoint'', JStr ''/abc''), (''method'', JStr ''GET''),
                   (''context'', JStr ''three fields''),
                   (''responseSchema'',
                    JObj [(''a'', JStr ''string''), (''b'', JStr ''number''),
                          (''c'', JObj [(''enum'', JArr [JStr ''X'', JStr ''Y''])])])])
      (JObj []) Rejected
    = Inr (JObj [(''a'', JStr ''sample_a''), (''b'', JNum 123), (''c'', JStr ''X'')])"
proof -
  let ?rs = "JObj [(''a'', JStr ''string''), (''b'', JStr ''number''),
                   (''c'', JObj [(''enum'', JArr [JStr ''X'', JStr ''Y''])])]"
  let ?schema = "JObj [(''endpoint'', JStr ''/abc''), (''method'', JStr ''GET''),
                       (''context'', JStr ''three fields''), (''responseSchema'', ?rs)]"
  have p: "build_prompt ?schema (JObj []) = Inr (Prompt (JStr ''three fields'') ?rs (JObj []))"
    by (simp add: build_prompt_def and_then_def)
  have rs: "get_prop ?schema ''responseSchema'' = Inr ?rs"
    by simp
  from fallback_example [OF p try_block_rejected rs] show ?thesis .
qed

text \<open>
  C5. The claim: for every schema whose \<open>responseSchema\<close> is an object with a
  \<open>properties\<close> mapping, the fields of the fallback object come from the entries of
  \<open>properties\<close>, so that the output has no field named \<open>properties\<close>. As stated this
  fails when \<open>properties\<close> itself has an entry of that name: for the response schema
  \<open>{"properties": {"properties": "string"}}\<close> the fallback is
  \<open>{properties: "sample_properties"}\<close>.
\<close>

theorem properties_field_counterexample:
  "generate (JObj [(''endpoint'', JStr ''/p''), (''method'', JStr ''GET''),
                   (''responseSchema'',
                    JObj [(''properties'', JObj [(''properties'', JStr ''string'')])])])
      (JObj []) Rejected
    = Inr (JObj [(''properties'', JStr ''sample_properties'')])"
  by (simp add: generate_def build_prompt_def try_block_def fallback_def and_then_def
      fallback_value_string set_prop_def define_prop_def)

text \<open>
  C5, amended. For every schema whose \<open>responseSchema\<close> is an object with a \<open>properties\<close>
  mapping, the fallback object is built from the entries of \<open>properties\<close> alone, whatever
  else the wrapper object holds: its fields are exactly the names of these entries (the name
  \<open>__proto__\<close> apart, which an assignment cannot create). So the output has a field named
  \<open>properties\<close> only when the mapping has an entry of that name.
\<close>

theorem fallback_fields_from_properties:
  assumes "build_prompt schema input = Inr p"
    and "try_block llm = Inl err"
    and "get_prop schema ''responseSchema'' = Inr (JObj rs)"
    and "map_of rs ''properties'' = Some (JObj ps)"
  shows "generate schema input llm = and_then (fill ps []) (\<lambda>fb. Inr (JObj fb))
    \<and> (\<forall>fb. generate schema input llm = Inr (JObj fb) \<longrightarrow>
           fst ` set fb = fst ` set ps - {''__proto__''})"
proof -
  have g: "generate schema input llm = and_then (fill ps []) (\<lambda>fb. Inr (JObj fb))"
    using generate_failure [OF assms(1,2)] assms(3,4)
    by (simp add: fallback_def and_then_def)
  have "fst ` set fb = fst ` set ps - {''__proto__''}"
    if "generate schema input llm = Inr (JObj fb)" for fb
  proof -
    from that g have "fill ps [] = Inr fb"
      by (cases "fill ps []") (simp_all add: and_then_def)
    from keys_fill [OF this] show ?thesis by simp
  qed
  with g show ?thesis by blast
qed

theorem fallback_fields_from_properties_witness:
  "generate (JObj [(''endpoint'', JStr ''/p''), (''method'', JStr ''GET''),
                   (''responseSchema'',
                    JObj [(''title'', JStr ''string''),
                          (''properties'', JObj [(''id'', JStr ''number'')])])])
      (JObj []) Rejected
    = Inr (JObj [(''id'', JNum 123)])"
proof -
  let ?rs = "[(''title'', JStr ''string''), (''properties'', JObj [(''id'', JStr ''number'')])]"
  let ?schema = "JObj [(''endpoint'', JStr ''/p''), (''method'', JStr ''GET''),
                       (''responseSchema'', JObj ?rs)]"
  have p: "build_prompt ?schema (JObj []) = Inr (Prompt (JStr ''N/A'') (JObj ?rs) (JObj []))"
    by (simp add: build_prompt_def and_then_def)
  have rs: "get_prop ?schema ''responseSchema'' = Inr (JObj ?rs)"
    by simp
  have ps: "map_of ?rs ''properties'' = Some (JObj [(''id'', JStr ''number'')])"
    by simp
  from fallback_fields_from_properties [OF p try_block_rejected rs ps] show ?thesis
    by (simp add: and_then_def fallback_value_number set_prop_def define_prop_def)
qed

text \<open>
  C6. For every schema that has no \<open>responseSchema\<close> field, whenever the generation path
  fails, \<open>generate\<close> returns exactly the object
  \<open>{ error: "Failed to generate mock response from LLM." }\<close>.
\<close>

theorem no_responseSchema_error_object:
  assumes "build_prompt (JObj fs) input = Inr p"
    and "try_block llm = Inl err"
    and "map_of fs ''responseSchema'' = None"
  shows "generate (JObj fs) input llm =
           Inr (JObj [(''error'', JStr ''Failed to generate mock response from LLM.'')])"
  using generate_failure [OF assms(1,2)] assms(3)
  by (simp add: fallback_def and_then_def)

theorem no_responseSchema_error_object_witness:
  "generate (JObj [(''endpoint'', JStr ''/bare''), (''method'', JStr ''GET'')]) (JObj []) Rejected
    = Inr (JObj [(''error'', JStr ''Failed to generate mock response from LLM.'')])"
proof -
  let ?fs = "[(''endpoint'', JStr ''/bare''), (''method'', JStr ''GET'')]"
  have p: "build_prompt (JObj ?fs) (JObj []) = Inr (Prompt (JStr ''N/A'') JUndefined (JObj []))"
    by (simp add: build_prompt_def and_then_def)
  have n: "map_of ?fs ''responseSchema'' = None"
    by simp
  from no_responseSchema_error_object [OF p try_block_rejected n] show ?thesis .
qed

text \<open>
  C7. When the response text is \<open>Sure! Here is the JSON: {"x":1}\<close>, strategy 1 (the
  substring from the first \<open>{\<close> to the last \<open>}\<close>) gives the candidate \<open>{"x":1}\<close>, and
  \<open>generate\<close> returns the parsed object \<open>{ x: 1 }\<close>.
\<close>

theorem strategy1_recovers_object:
  assumes \<open>build_prompt schema input = Inr p\<close>
    and \<open>get_prop data ''response'' = Inr (JStr ''Sure! Here is the JSON: {"x":1}'')\<close>
  shows \<open>strategy1 (trim ''Sure! Here is the JSON: {"x":1}'') = Some ''{"x":1}''
    \<and> generate schema input (Resolved data) = Inr (JObj [(''x'', JNum 1)])\<close>
proof -
  have \<open>try_block (Resolved data) = Inr (JObj [(''x'', JNum 1)])\<close>
    using try_block_text [OF assms(2), of \<open>''{"x":1}''\<close>]
    by (simp add: trim_sure extract_json_strategy1 [OF strategy1_sure] parse_x1)
  from generate_success [OF assms(1) this] show ?thesis
    by (simp add: trim_sure strategy1_sure)
qed

theorem strategy1_recovers_object_witness:
  \<open>generate (JObj [(''endpoint'', JStr ''/x''), (''method'', JStr ''GET''),
                   (''responseSchema'', JObj [(''x'', JStr ''number'')])])
      (JObj [])
      (Resolved (JObj [(''model'', JStr ''llama3''),
                       (''response'', JStr ''Sure! Here is the JSON: {"x":1}''),
                       (''done'', JBool True)]))
    = Inr (JObj [(''x'', JNum 1)])\<close>
proof -
  let ?schema = "JObj [(''endpoint'', JStr ''/x''), (''method'', JStr ''GET''),
                       (''responseSchema'', JObj [(''x'', JStr ''number'')])]"
  have p: "build_prompt ?schema (JObj []) =
             Inr (Prompt (JStr ''N/A'') (JObj [(''x'', JStr ''number'')]) (JObj []))"
    by (simp add: build_prompt_def and_then_def)
  have r: \<open>get_prop (JObj [(''model'', JStr ''llama3''),
                           (''response'', JStr ''Sure! Here is the JSON: {"x":1}''),
                           (''done'', JBool True)]) ''response''
           = Inr (JStr ''Sure! Here is the JSON: {"x":1}'')\<close>
    by simp
  from strategy1_recovers_object [OF p r] show ?thesis by simp
qed

text \<open>
  C8. When the response text is the bare array \<open>[1,2,3]\<close>, which has no \<open>{\<close> or \<open>}\<close>,
  strategy 1 finds no candidate, strategy 2 (first \<open>[\<close> to last \<open>]\<close>) gives the whole text,
  and \<open>generate\<close> returns the parsed array \<open>[1,2,3]\<close>.
\<close>

theorem strategy2_recovers_array:
  assumes \<open>build_prompt schema input = Inr p\<close>
    and \<open>get_prop data ''response'' = Inr (JStr ''[1,2,3]'')\<close>
  shows \<open>strategy1 (trim ''[1,2,3]'') = None
    \<and> strategy2 (trim ''[1,2,3]'') = Some ''[1,2,3]''
    \<and> generate schema input (Resolved data) = Inr (JArr [JNum 1, JNum 2, JNum 3])\<close>
proof -
  have \<open>try_block (Resolved data) = Inr (JArr [JNum 1, JNum 2, JNum 3])\<close>
    using try_block_text [OF assms(2), of \<open>''[1,2,3]''\<close>]
    by (simp add: trim_123 extract_json_strategy2 [OF strategy1_123 strategy2_123] parse_123)
  from generate_success [OF assms(1) this] show ?thesis
    by (simp add: trim_123 strategy1_123 strategy2_123)
qed

theorem strategy2_recovers_array_witness:
  \<open>generate (JObj [(''endpoint'', JStr ''/numbers''), (''method'', JStr ''GET''),
                   (''responseSchema'', JObj [(''n'', JStr ''number'')])])
      (JObj [])
      (Resolved (JObj [(''response'', JStr ''[1,2,3]'')]))
    = Inr (JArr [JNum 1, JNum 2, JNum 3])\<close>
proof -
  let ?schema = "JObj [(''endpoint'', JStr ''/numbers''), (''method'', JStr ''GET''),
                       (''responseSchema'', JObj [(''n'', JStr ''number'')])]"
  have p: "build_prompt ?schema (JObj []) =
             Inr (Prompt (JStr ''N/A'') (JObj [(''n'', JStr ''number'')]) (JObj []))"
    by (simp add: build_prompt_def and_then_def)
  have r: \<open>get_prop (JObj [(''response'', JStr ''[1,2,3]'')]) ''response'' = Inr (JStr ''[1,2,3]'')\<close>
    by simp
  from strategy2_recovers_array [OF p r] show ?thesis by simp
qed

text \<open>
  C9. For a fixed schema the fallback path is deterministic and does not depend on the cause
  of the failure: any two invocations of \<open>generate\<close> that fail (the request is rejected, no
  JSON-shaped substring is found, or the candidate does not parse) give the same result,
  the one \<open>fallback\<close> computes from the schema alone.
\<close>

theorem fallback_independent_of_cause:
  assumes "build_prompt schema input1 = Inr p1"
    and "build_prompt schema input2 = Inr p2"
    and "try_block llm1 = Inl err1"
    and "try_block llm2 = Inl err2"
  shows "generate schema input1 llm1 = generate schema input2 llm2
    \<and> generate schema input1 llm1 = fallback schema"
  using generate_failure [OF assms(1,3)] generate_failure [OF assms(2,4)] by simp

lemma no_json_in_refusal: "try_block (Resolved (JObj [(''response'', JStr ''I cannot help with that.'')])) = Inl NoJsonFound"
  by code_simp

lemma no_parse_of_braces: "try_block (Resolved (JObj [(''response'', JStr ''{oops}'')])) = Inl SyntaxError"
  by code_simp

theorem fallback_independent_of_cause_witness:
  "generate (JObj [(''endpoint'', JStr ''/u''), (''method'', JStr ''POST''),
                   (''responseSchema'', JObj [(''ok'', JStr ''boolean'')])])
      (JObj []) Rejected
   = generate (JObj [(''endpoint'', JStr ''/u''), (''method'', JStr ''POST''),
                     (''responseSchema'', JObj [(''ok'', JStr ''boolean'')])])
       (JObj [(''id'', JNum 7)]) (Resolved (JObj [(''response'', JStr ''I cannot help with that.'')]))
   \<and> generate (JObj [(''endpoint'', JStr ''/u''), (''method'', JStr ''POST''),
                     (''responseSchema'', JObj [(''ok'', JStr ''boolean'')])])
       (JObj []) Rejected
   = generate (JObj [(''endpoint'', JStr ''/u''), (''method'', JStr ''POST''),
                     (''responseSchema'', JObj [(''ok'', JStr ''boolean'')])])
       (JObj [(''id'', JNum 7)]) (Resolved (JObj [(''response'', JStr ''{oops}'')]))
   \<and> generate (JObj [(''endpoint'', JStr ''/u''), (''method'', JStr ''POST''),
                     (''responseSchema'', JObj [(''ok'', JStr ''boolean'')])])
       (JObj []) Rejected
   = Inr (JObj [(''ok'', JBool True)])"
proof -
  let ?schema = "JObj [(''endpoint'', JStr ''/u''), (''method'', JStr ''POST''),
                       (''responseSchema'', JObj [(''ok'', JStr ''boolean'')])]"
  have p1: "build_prompt ?schema (JObj []) =
              Inr (Prompt (JStr ''N/A'') (JObj [(''ok'', JStr ''boolean'')]) (JObj []))"
    by (simp add: build_prompt_def and_then_def)
  have p2: "build_prompt ?schema (JObj [(''id'', JNum 7)]) =
              Inr (Prompt (JStr ''N/A'') (JObj [(''ok'', JStr ''boolean'')]) (JObj [(''id'', JNum 7)]))"
    by (simp add: build_prompt_def and_then_def)
  have fb: "fallback ?schema = Inr (JObj [(''ok'', JBool True)])"
    by (simp add: fallback_def and_then_def fallback_value_boolean set_prop_def define_prop_def)
  note a = fallback_independent_of_cause [OF p1 p2 try_block_rejected no_json_in_refusal]
  note b = fallback_independent_of_cause [OF p1 p2 try_block_rejected no_parse_of_braces]
  from a have 1: "generate ?schema (JObj []) Rejected
      = generate ?schema (JObj [(''id'', JNum 7)])
          (Resolved (JObj [(''response'', JStr ''I cannot help with that.'')]))" ..
  from b have 2: "generate ?schema (JObj []) Rejected
      = generate ?schema (JObj [(''id'', JNum 7)])
          (Resolved (JObj [(''response'', JStr ''{oops}'')]))" ..
  from a have "generate ?schema (JObj []) Rejected = fallback ?schema" ..
  then have 3: "generate ?schema (JObj []) Rejected = Inr (JObj [(''ok'', JBool True)])"
    by (simp only: fb)
  from 1 2 3 show ?thesis by (intro conjI)
qed

subsection \<open>Claims about POST /schemas\<close>

text \<open>
  C10. For every \<open>POST /schemas\<close> request whose body is absent or lacks one of the fields
  \<open>endpoint\<close>, \<open>method\<close>, \<open>responseSchema\<close>, the server answers with status 400 and the
  body \<open>{ error: "Invalid schema format" }\<close>, and nothing else happens: no file is written
  to the schemas directory, no entry is added to the \<open>schemas\<close> object, and no route is
  registered.
\<close>

theorem post_schemas_rejects_incomplete:
  assumes "body = JUndefined
           \<or> (\<exists>fs. body = JObj fs
                 \<and> (\<exists>f\<in>set [''endpoint'', ''method'', ''responseSchema'']. map_of fs f = None))"
  shows "post_schemas now writable verb body st =
           (Response 400 (JObj [(''error'', JStr ''Invalid schema format'')]), st)"
proof -
  from assms have "invalid_schema body"
    by (auto simp: invalid_schema_def field_def)
  then show ?thesis by (simp add: post_schemas_def)
qed

theorem post_schemas_rejects_incomplete_witness:
  "post_schemas 1751941994048 (\<lambda>f. True) (\<lambda>m. m \<in> set [''get'', ''post'', ''put'', ''delete''])
     (JObj [(''endpoint'', JStr ''/customer/profile''), (''method'', JStr ''GET'')])
     \<lparr>files = [], schemas = [], routes = []\<rparr>
   = (Response 400 (JObj [(''error'', JStr ''Invalid schema format'')]),
      \<lparr>files = [], schemas = [], routes = []\<rparr>)
   \<and> post_schemas 1751941994048 (\<lambda>f. True) (\<lambda>m. m \<in> set [''get'', ''post'', ''put'', ''delete''])
     JUndefined \<lparr>files = [], schemas = [], routes = []\<rparr>
   = (Response 400 (JObj [(''error'', JStr ''Invalid schema format'')]),
      \<lparr>files = [], schemas = [], routes = []\<rparr>)"
proof -
  let ?fs = "[(''endpoint'', JStr ''/customer/profile''), (''method'', JStr ''GET'')]"
  have h: "JObj ?fs = JUndefined
           \<or> (\<exists>fs. JObj ?fs = JObj fs
                 \<and> (\<exists>f\<in>set [''endpoint'', ''method'', ''responseSchema'']. map_of fs f = None))"
    by simp
  have u: "JUndefined = JUndefined
           \<or> (\<exists>fs. JUndefined = JObj fs
                 \<and> (\<exists>f\<in>set [''endpoint'', ''method'', ''responseSchema'']. map_of fs f = None))"
    by simp
  from post_schemas_rejects_incomplete [OF h] post_schemas_rejects_incomplete [OF u]
  show ?thesis by simp
qed

text \<open>
  A complete schema, for comparison, is written to the directory and registered.
\<close>

lemma post_schemas_accepts_complete:
  "post_schemas 17 (\<lambda>f. True) (\<lambda>m. m \<in> set [''get'', ''post'', ''put'', ''delete''])
     (JObj [(''endpoint'', JStr ''/customer/profile''), (''method'', JStr ''GET''),
            (''responseSchema'', JObj [(''id'', JStr ''number'')])])
     \<lparr>files = [], schemas = [], routes = []\<rparr>
   = (Response 200 (JObj [(''message'', JStr ''Schema added successfully''),
                          (''endpoint'', JStr ''/customer/profile'')]),
      \<lparr>files = [(''17_customer_profile.json'',
                  JObj [(''endpoint'', JStr ''/customer/profile''), (''method'', JStr ''GET''),
                        (''responseSchema'', JObj [(''id'', JStr ''number'')])])],
       schemas = [(''get /customer/profile'',
                   JObj [(''endpoint'', JStr ''/customer/profile''), (''method'', JStr ''GET''),
                         (''responseSchema'', JObj [(''id'', JStr ''number'')])])],
       routes = [(''get'', ''/customer/profile'',
                  JObj [(''endpoint'', JStr ''/customer/profile''), (''method'', JStr ''GET''),
                        (''responseSchema'', JObj [(''id'', JStr ''number'')])])]\<rparr>)"
  by code_simp

end
